theory Spec2Isabelle
  imports Main
begin

section \<open>Data model\<close>

subsection \<open>Configuration entries\<close>

text \<open>
  An entry of the configuration is an XML element. The validators read it through
  \<^verbatim>\<open>entry.get(key)\<close> (an attribute, or None), \<^verbatim>\<open>entry.findall(path)\<close>,
  \<^verbatim>\<open>entry.find(path)\<close> and \<^verbatim>\<open>node.text\<close> (None for an element without text).
\<close>

datatype xml =
  Element (tag: string) (attrib: "(string \<times> string) list") (elem_text: "string option")
    (children: "xml list")

definition xml_get :: "xml \<Rightarrow> string \<Rightarrow> string option" where
  "xml_get e k = map_of (attrib e) k"

text \<open>\<^verbatim>\<open>e.findall('t')\<close>: the direct children with tag t, in document order.\<close>

definition findall :: "xml \<Rightarrow> string \<Rightarrow> xml list" where
  "findall e t = filter (\<lambda>c. tag c = t) (children e)"

text \<open>\<^verbatim>\<open>e.findall('./a/b')\<close>: the children tagged b of the children tagged a.\<close>

definition findall2 :: "xml \<Rightarrow> string \<Rightarrow> string \<Rightarrow> xml list" where
  "findall2 e a b = concat (map (\<lambda>c. findall c b) (findall e a))"

text \<open>\<^verbatim>\<open>e.find('./t')\<close>: the first child with tag t, or None.\<close>

definition find_child :: "xml \<Rightarrow> string \<Rightarrow> xml option" where
  "find_child e t = (case findall e t of [] \<Rightarrow> None | c # _ \<Rightarrow> Some c)"

subsection \<open>Findings and errors\<close>

text \<open>
  \<^verbatim>\<open>BadEntry(data, text, device_group, entry_type)\<close>. The payload \<^verbatim>\<open>data\<close> is an
  entry for the hostname validators and a pair (winning entry, replacement) for the
  consolidation validators, hence the type parameter.
\<close>

record 'd BadEntry =
  data :: 'd
  finding_text :: string
  device_group :: string
  entry_type :: string

text \<open>The exceptions the modelled code can raise.\<close>

datatype py_error =
  KeyError string
  | AttributeError
  | TypeError
  | RemoteError
  | UnsupportedFormat string

subsection \<open>The parsed configuration and the profile package\<close>

text \<open>
  Modelled from the spec: the class \<^verbatim>\<open>PanConfig\<close> is not among the sources. The spec
  gives it as the parsed document: the list of scopes, the parent and child maps,
  \<^verbatim>\<open>get_entries(category, scope_kind, scope_name)\<close> returning an ordered list of
  entries, and the two fixed enumerations of supported categories. The third argument of
  the two getters is absent for the addressing mode \<^verbatim>\<open>'shared'\<close>.
\<close>

record PanConfig =
  SUPPORTED_POLICY_TYPES :: "string list"
  SUPPORTED_OBJECT_TYPES :: "string list"
  get_major_version :: int
  get_device_groups :: "string list"
  get_device_groups_hierarchy :: "(string \<rightharpoonup> string list) \<times> (string \<rightharpoonup> string)"
  get_devicegroup_policy :: "string \<Rightarrow> string \<Rightarrow> string option \<Rightarrow> xml list"
  get_devicegroup_object :: "string \<Rightarrow> string \<Rightarrow> string option \<Rightarrow> xml list"

text \<open>
  \<^verbatim>\<open>devicegroup_objects[dg]\<close> is a dictionary with the keys
  \<^verbatim>\<open>'all_child_device_groups'\<close> and \<^verbatim>\<open>'all_active_child_firewalls'\<close> (lists of names)
  and one key per category (a list of entries). The two bookkeeping keys are fields of
  their own here; the categories are a map from the category name.
\<close>

record dg_objects =
  all_child_device_groups :: "string list"
  all_active_child_firewalls :: "string list"
  entries :: "string \<rightharpoonup> xml list"

text \<open>The keyword arguments of \<^verbatim>\<open>ProfilePackage(...)\<close> in \<^verbatim>\<open>load_config_package\<close>.\<close>

record ProfilePackage =
  panorama :: string
  api_key :: string
  pan_config :: PanConfig
  mandated_log_profile :: "string option"
  allowed_group_profiles :: "string list"
  default_group_profile :: "string option"
  ignored_dns_prefixes :: "string list"
  device_group_hierarchy_children :: "string \<rightharpoonup> string list"
  device_group_hierarchy_parent :: "string \<rightharpoonup> string"
  device_groups_and_firewalls :: "string \<rightharpoonup> string list"
  device_groups :: "string list"
  devicegroup_objects :: "string \<rightharpoonup> dg_objects"
  devicegroup_exclusive_objects :: "string \<rightharpoonup> (string \<rightharpoonup> xml list)"
  rule_limit_enabled :: bool
  verbose :: bool
  no_api :: bool

text \<open>
  The fixers also read \<^verbatim>\<open>profilepackage.settings\<close>, which \<^verbatim>\<open>load_config_package\<close>
  does not pass: the package they receive is the extension with that field.
\<close>

record ProfilePackage_settings = ProfilePackage +
  settings :: "string \<rightharpoonup> string"

section \<open>Consolidation fixers\<close>

text \<open>
  The calls of \<^verbatim>\<open>pan_api\<close> a fixer makes. Each is a blocking remote request that
  raises on failure; the model records the calls in the order they are issued.
\<close>

datatype 'p api_call =
  Update_devicegroup_object "string option" int string 'p string string
  | Update_devicegroup_policy "string option" int string 'p string string
  | Validate_commit "string option" string

text \<open>
  The remote side: whether a call fails, given the calls issued before it. A call is
  appended to the trace whether it fails or not; a failure propagates as the fixer's
  result and no further call is made.
\<close>

type_synonym 'p remote = "'p api_call list \<Rightarrow> 'p api_call \<Rightarrow> bool"

definition issue :: "'p remote \<Rightarrow> 'p api_call \<Rightarrow> 'p api_call list
    \<Rightarrow> (py_error + unit) \<times> 'p api_call list" where
  "issue fails c tr = (if fails tr c then (Inl RemoteError, tr @ [c]) else (Inr (), tr @ [c]))"

text \<open>
  Issuing a list of calls in order, up to and including the first one that fails. It
  is used to state what a fixer sends; the fixer itself is the loop below.
\<close>

fun issue_all :: "'p remote \<Rightarrow> 'p api_call list \<Rightarrow> 'p api_call list
    \<Rightarrow> (py_error + unit) \<times> 'p api_call list" where
  "issue_all fails [] tr = (Inr (), tr)"
| "issue_all fails (c # cs) tr =
     (case issue fails c tr of
        (Inl e, tr') \<Rightarrow> (Inl e, tr')
      | (Inr u, tr') \<Rightarrow> issue_all fails cs tr')"

text \<open>The loop \<^verbatim>\<open>for badentry in badentries_needing_consolidation\<close>.\<close>

fun replace_contents :: "'p remote \<Rightarrow> PanConfig \<Rightarrow> string option \<Rightarrow> int \<Rightarrow> string
    \<Rightarrow> ('e \<times> 'p) BadEntry list \<Rightarrow> 'p api_call list
    \<Rightarrow> (py_error + unit) \<times> 'p api_call list" where
  "replace_contents fails pc pano version key [] tr = (Inr (), tr)"
| "replace_contents fails pc pano version key (badentry # rest) tr =
     (let (object_policy_entry, object_policy_dict) = data badentry;
          object_policy_dg = device_group badentry;
          object_policy_type = entry_type badentry
      in if object_policy_type \<in> set (SUPPORTED_OBJECT_TYPES pc) then
           (case issue fails (Update_devicegroup_object pano version key object_policy_dict
                               object_policy_type object_policy_dg) tr of
              (Inl e, tr') \<Rightarrow> (Inl e, tr')
            | (Inr _, tr') \<Rightarrow> replace_contents fails pc pano version key rest tr')
         else if object_policy_type \<in> set (SUPPORTED_POLICY_TYPES pc) then
           (case issue fails (Update_devicegroup_policy pano version key object_policy_dict
                               object_policy_type object_policy_dg) tr of
              (Inl e, tr') \<Rightarrow> (Inl e, tr')
            | (Inr _, tr') \<Rightarrow> replace_contents fails pc pano version key rest tr')
         else replace_contents fails pc pano version key rest tr)"

text \<open>
  \<^verbatim>\<open>consolidate_service_like_objects(profilepackage, object_friendly_type,
  validator_function)\<close>. The result is the value returned (or the exception raised) and
  the trace of remote calls. The progress messages printed to the terminal are not
  remote calls and are left out.
\<close>

definition consolidate_service_like_objects ::
  "'p remote \<Rightarrow> ProfilePackage_settings \<Rightarrow> string
    \<Rightarrow> (ProfilePackage_settings \<Rightarrow> ('e \<times> 'p) BadEntry list)
    \<Rightarrow> (py_error + ('e \<times> 'p) BadEntry list) \<times> 'p api_call list" where
  "consolidate_service_like_objects fails profilepackage object_friendly_type validator_function =
     (let pano = settings profilepackage ''Panorama'';
          key = api_key profilepackage;
          pc = pan_config profilepackage;
          version = get_major_version pc;
          badentries_needing_consolidation = validator_function profilepackage
      in if badentries_needing_consolidation = [] then (Inr badentries_needing_consolidation, [])
         else (case replace_contents fails pc pano version key badentries_needing_consolidation [] of
                 (Inl e, tr) \<Rightarrow> (Inl e, tr)
               | (Inr _, tr) \<Rightarrow>
                   (case issue fails (Validate_commit pano key) tr of
                      (Inl e, tr') \<Rightarrow> (Inl e, tr')
                    | (Inr _, tr') \<Rightarrow> (Inr badentries_needing_consolidation, tr'))))"

text \<open>
  The registry of validators, \<^verbatim>\<open>get_policy_validators()\<close>: name to (name,
  description, function). The four registered fixers look their paired validator up by
  name (a missing name is a KeyError) and delegate.
\<close>

type_synonym ('e, 'p) validators =
  "string \<rightharpoonup> (string \<times> string \<times> (ProfilePackage_settings \<Rightarrow> ('e \<times> 'p) BadEntry list))"

definition consolidate_with :: "string \<Rightarrow> string \<Rightarrow> ('e, 'p) validators \<Rightarrow> 'p remote
    \<Rightarrow> ProfilePackage_settings \<Rightarrow> (py_error + ('e \<times> 'p) BadEntry list) \<times> 'p api_call list" where
  "consolidate_with object_friendly_type validator_name registry fails profilepackage =
     (case registry validator_name of
        None \<Rightarrow> (Inl (KeyError validator_name), [])
      | Some (_, _, validator_function) \<Rightarrow>
          consolidate_service_like_objects fails profilepackage object_friendly_type
            validator_function)"

definition consolidate_services :: "('e, 'p) validators \<Rightarrow> 'p remote
    \<Rightarrow> ProfilePackage_settings \<Rightarrow> (py_error + ('e \<times> 'p) BadEntry list) \<times> 'p api_call list" where
  "consolidate_services = consolidate_with ''Service'' ''FindConsolidatableServices''"

definition consolidate_servicegroups :: "('e, 'p) validators \<Rightarrow> 'p remote
    \<Rightarrow> ProfilePackage_settings \<Rightarrow> (py_error + ('e \<times> 'p) BadEntry list) \<times> 'p api_call list" where
  "consolidate_servicegroups = consolidate_with ''Service Group'' ''FindConsolidatableServiceGroups''"

definition consolidate_addresses :: "('e, 'p) validators \<Rightarrow> 'p remote
    \<Rightarrow> ProfilePackage_settings \<Rightarrow> (py_error + ('e \<times> 'p) BadEntry list) \<times> 'p api_call list" where
  "consolidate_addresses = consolidate_with ''Address'' ''FindConsolidatableAddresses''"

definition consolidate_addressgroups :: "('e, 'p) validators \<Rightarrow> 'p remote
    \<Rightarrow> ProfilePackage_settings \<Rightarrow> (py_error + ('e \<times> 'p) BadEntry list) \<times> 'p api_call list" where
  "consolidate_addressgroups = consolidate_with ''Address Group'' ''FindConsolidatableAddresseGroups''"

section \<open>Building the snapshot: \<^verbatim>\<open>load_config_package\<close>\<close>

text \<open>
  What the function consumes from outside the sources: reading and parsing the exported
  file, the three requests of \<^verbatim>\<open>pan_api\<close> (each may raise), \<^verbatim>\<open>squash_all_devicegroups\<close>
  of the core module (its result, a dictionary from a device group to the list of its
  descendants, is taken as given), the cached DNS lookup, and Python's \<^verbatim>\<open>str.lower\<close>
  and the rendering \<^verbatim>\<open>f"{sorted(s)}"\<close> of a set (a TypeError when its members are not
  comparable).
\<close>

record external =
  parse_xml_file :: "string \<Rightarrow> py_error + PanConfig"
  export_configuration2 :: "string \<Rightarrow> string \<Rightarrow> py_error + PanConfig"
  get_device_groups_and_firewalls :: "string \<Rightarrow> string \<Rightarrow> py_error + (string \<rightharpoonup> string list)"
  get_active_firewalls :: "string \<Rightarrow> string \<Rightarrow> py_error + string list"
  squash_all_devicegroups :: "string list \<Rightarrow> (string \<rightharpoonup> string list) \<Rightarrow> (string \<rightharpoonup> string list)"
  cached_dns_lookup :: "string \<Rightarrow> string option"
  lower :: "string \<Rightarrow> string"
  format_sorted :: "string option set \<Rightarrow> py_error + string"

text \<open>Python's truth value of an optional string: None and the empty string are false.\<close>

definition truthy :: "string option \<Rightarrow> bool" where
  "truthy s = (case s of None \<Rightarrow> False | Some v \<Rightarrow> v \<noteq> [])"

text \<open>\<^verbatim>\<open>s.split(',')\<close>, for any separator character.\<close>

fun split_on :: "char \<Rightarrow> string \<Rightarrow> string list" where
  "split_on c [] = [[]]"
| "split_on c (x # xs) =
     (if x = c then [] # split_on c xs
      else (case split_on c xs of [] \<Rightarrow> [[x]] | w # ws \<Rightarrow> (x # w) # ws))"

text \<open>
  \<^verbatim>\<open>xs[:limit]\<close>: everything when the limit is None, the first n entries for n at least
  0, and all but the last \<open>-n\<close> entries for a negative n.
\<close>

definition slice_to :: "'a list \<Rightarrow> int option \<Rightarrow> 'a list" where
  "slice_to xs limit =
     (case limit of
        None \<Rightarrow> xs
      | Some n \<Rightarrow> if 0 \<le> n then take (nat n) xs else take (length xs - nat (- n)) xs)"

text \<open>Reading a \<^verbatim>\<open>defaultdict(list)\<close>: a missing key reads as the empty list.\<close>

definition dd_get :: "('k \<rightharpoonup> 'v list) \<Rightarrow> 'k \<Rightarrow> 'v list" where
  "dd_get m k = (case m k of None \<Rightarrow> [] | Some v \<Rightarrow> v)"

text \<open>
  Lines 24 to 41: the parsed configuration, the device groups with their firewalls and
  the active firewalls of each device group. From a file the last two stay empty.
\<close>

definition active_firewalls_per_devicegroup ::
  "(string \<rightharpoonup> string list) \<Rightarrow> string list \<Rightarrow> (string \<rightharpoonup> string list)" where
  "active_firewalls_per_devicegroup dgs_and_fws active_firewalls =
     (\<lambda>dg. case dgs_and_fws dg of
             None \<Rightarrow> None
           | Some firewalls \<Rightarrow> Some (filter (\<lambda>fw. fw \<in> set active_firewalls) firewalls))"

definition load_sources :: "external \<Rightarrow> string \<Rightarrow> string \<Rightarrow> string option
    \<Rightarrow> py_error + (PanConfig \<times> (string \<rightharpoonup> string list) \<times> (string \<rightharpoonup> string list))" where
  "load_sources ext pano key xml_file =
     (if truthy xml_file then
        (case parse_xml_file ext (the xml_file) of
           Inl e \<Rightarrow> Inl e
         | Inr pc \<Rightarrow> Inr (pc, Map.empty, Map.empty))
      else
        (case export_configuration2 ext pano key of
           Inl e \<Rightarrow> Inl e
         | Inr pc \<Rightarrow>
            (case get_device_groups_and_firewalls ext pano key of
               Inl e \<Rightarrow> Inl e
             | Inr dgs_and_fws \<Rightarrow>
                (case get_active_firewalls ext pano key of
                   Inl e \<Rightarrow> Inl e
                 | Inr active_firewalls \<Rightarrow>
                     Inr (pc, dgs_and_fws,
                          active_firewalls_per_devicegroup dgs_and_fws active_firewalls)))))"

text \<open>
  Lines 50 to 54: for every device group of the squashed hierarchy, the active firewalls
  of its descendants, appended in the order of the descendants.
\<close>

fun append_active :: "(string \<rightharpoonup> string list) \<Rightarrow> string list \<Rightarrow> string list \<Rightarrow> string list" where
  "append_active raw [] acc = acc"
| "append_active raw (child_dg # rest) acc = append_active raw rest (acc @ dd_get raw child_dg)"

definition all_active_firewalls_per_devicegroup ::
  "(string \<rightharpoonup> string list) \<Rightarrow> (string \<rightharpoonup> string list) \<Rightarrow> (string \<rightharpoonup> string list)" where
  "all_active_firewalls_per_devicegroup dgs_to_child_dgs raw =
     (\<lambda>dg. case dgs_to_child_dgs dg of
             None \<Rightarrow> None
           | Some child_dgs \<Rightarrow> Some (append_active raw child_dgs []))"

text \<open>Lines 64 to 83: the entries of every device group, per category.\<close>

fun fill_policies :: "PanConfig \<Rightarrow> string \<Rightarrow> string option \<Rightarrow> int option \<Rightarrow> string list
    \<Rightarrow> (string \<rightharpoonup> xml list) \<Rightarrow> (string \<rightharpoonup> xml list)" where
  "fill_policies pc kind dg limit [] m = m"
| "fill_policies pc kind dg limit (policy_type # rest) m =
     fill_policies pc kind dg limit rest
       (m(policy_type \<mapsto> slice_to (get_devicegroup_policy pc policy_type kind dg) limit))"

fun fill_objects :: "PanConfig \<Rightarrow> string \<Rightarrow> string option \<Rightarrow> string list
    \<Rightarrow> (string \<rightharpoonup> xml list) \<Rightarrow> (string \<rightharpoonup> xml list)" where
  "fill_objects pc kind dg [] m = m"
| "fill_objects pc kind dg (object_type # rest) m =
     fill_objects pc kind dg rest (m(object_type \<mapsto> get_devicegroup_object pc object_type kind dg))"

definition fetch_entries :: "PanConfig \<Rightarrow> int option \<Rightarrow> string \<Rightarrow> (string \<rightharpoonup> xml list)" where
  "fetch_entries pc limit dg =
     (if dg = ''shared'' then
        fill_objects pc ''shared'' None (SUPPORTED_OBJECT_TYPES pc)
          (fill_policies pc ''shared'' None limit (SUPPORTED_POLICY_TYPES pc) Map.empty)
      else
        fill_objects pc ''device-group'' (Some dg) (SUPPORTED_OBJECT_TYPES pc)
          (fill_policies pc ''device-group'' (Some dg) limit (SUPPORTED_POLICY_TYPES pc) Map.empty))"

fun build_devicegroup_objects :: "PanConfig \<Rightarrow> int option \<Rightarrow> (string \<rightharpoonup> string list)
    \<Rightarrow> (string \<rightharpoonup> string list) \<Rightarrow> string list \<Rightarrow> (string \<rightharpoonup> dg_objects)
    \<Rightarrow> py_error + (string \<rightharpoonup> dg_objects)" where
  "build_devicegroup_objects pc limit dgs_to_child_dgs all_active [] objs = Inr objs"
| "build_devicegroup_objects pc limit dgs_to_child_dgs all_active (dg # rest) objs =
     (case dgs_to_child_dgs dg of
        None \<Rightarrow> Inl (KeyError dg)
      | Some child_dgs \<Rightarrow>
          build_devicegroup_objects pc limit dgs_to_child_dgs all_active rest
            (objs(dg \<mapsto> \<lparr>all_child_device_groups = child_dgs,
                         all_active_child_firewalls = dd_get all_active dg,
                         entries = fetch_entries pc limit dg\<rparr>)))"

text \<open>\<^verbatim>\<open>devicegroup_objects[dg][category]\<close>, a KeyError when either key is missing.\<close>

definition lookup_entries :: "(string \<rightharpoonup> dg_objects) \<Rightarrow> string \<Rightarrow> string \<Rightarrow> py_error + xml list" where
  "lookup_entries objs dg category =
     (case objs dg of
        None \<Rightarrow> Inl (KeyError dg)
      | Some d \<Rightarrow> (case entries d category of None \<Rightarrow> Inl (KeyError category) | Some xs \<Rightarrow> Inr xs))"

text \<open>
  Lines 87 to 102: the policies exclusive to a device group. Only the policy categories
  are visited. A device group without a parent keeps all its policies; otherwise the
  policies whose \<^verbatim>\<open>@uuid\<close> is among those of the parent's policies are left out.
\<close>

fun exclusive_policies :: "(string \<rightharpoonup> dg_objects) \<Rightarrow> (string \<rightharpoonup> string) \<Rightarrow> string
    \<Rightarrow> string list \<Rightarrow> (string \<rightharpoonup> xml list) \<Rightarrow> py_error + (string \<rightharpoonup> xml list)" where
  "exclusive_policies objs parent dg [] m = Inr m"
| "exclusive_policies objs parent dg (policy_type # rest) m =
     (case parent dg of
        None \<Rightarrow>
          (case lookup_entries objs dg policy_type of
             Inl e \<Rightarrow> Inl e
           | Inr own \<Rightarrow> exclusive_policies objs parent dg rest (m(policy_type \<mapsto> own)))
      | Some parent_dg \<Rightarrow>
          (case lookup_entries objs parent_dg policy_type of
             Inl e \<Rightarrow> Inl e
           | Inr parent_policies \<Rightarrow>
              (let parent_policy_uuids =
                     set (map (\<lambda>entry. xml_get entry ''@uuid'') parent_policies)
               in case lookup_entries objs dg policy_type of
                    Inl e \<Rightarrow> Inl e
                  | Inr own \<Rightarrow>
                      (let exclusive_objects =
                             filter (\<lambda>entry. xml_get entry ''@uuid'' \<notin> parent_policy_uuids) own
                       in exclusive_policies objs parent dg rest
                            (m(policy_type \<mapsto> exclusive_objects))))))"

fun build_exclusive_objects :: "PanConfig \<Rightarrow> (string \<rightharpoonup> dg_objects) \<Rightarrow> (string \<rightharpoonup> string)
    \<Rightarrow> string list \<Rightarrow> (string \<rightharpoonup> (string \<rightharpoonup> xml list))
    \<Rightarrow> py_error + (string \<rightharpoonup> (string \<rightharpoonup> xml list))" where
  "build_exclusive_objects pc objs parent [] excl = Inr excl"
| "build_exclusive_objects pc objs parent (dg # rest) excl =
     (case exclusive_policies objs parent dg (SUPPORTED_POLICY_TYPES pc) Map.empty of
        Inl e \<Rightarrow> Inl e
      | Inr m \<Rightarrow> build_exclusive_objects pc objs parent rest (excl(dg \<mapsto> m)))"

text \<open>
  The whole function. \<^verbatim>\<open>config\<close> is the section of the configuration file
  (\<^verbatim>\<open>config.get\<close>; \<^verbatim>\<open>config['Panorama']\<close> is a KeyError when absent).
\<close>

definition load_config_package :: "external \<Rightarrow> (string \<rightharpoonup> string) \<Rightarrow> string \<Rightarrow> string option
    \<Rightarrow> int option \<Rightarrow> bool \<Rightarrow> bool \<Rightarrow> string option \<Rightarrow> py_error + ProfilePackage" where
  "load_config_package ext config key dg_arg limit verbose_arg no_api_arg xml_file =
     (case config ''Panorama'' of
        None \<Rightarrow> Inl (KeyError ''Panorama'')
      | Some pano \<Rightarrow>
     (let allowed =
            (if truthy (config ''Allowed Group Profiles'')
             then split_on CHR '','' (the (config ''Allowed Group Profiles'')) else []);
          ignored =
            (if truthy (config ''Ignored DNS Prefixes'')
             then map (lower ext) (split_on CHR '','' (the (config ''Ignored DNS Prefixes'')))
             else [])
      in case load_sources ext pano key xml_file of
           Inl e \<Rightarrow> Inl e
         | Inr (pc, dgs_and_fws, raw) \<Rightarrow>
     (let (hierarchy_children, hierarchy_parent) = get_device_groups_hierarchy pc;
          all_device_groups = get_device_groups pc @ [''shared''];
          dgs_to_child_dgs = squash_all_devicegroups ext all_device_groups hierarchy_children;
          all_active = all_active_firewalls_per_devicegroup dgs_to_child_dgs raw;
          dgs = (if truthy dg_arg then [the dg_arg] else all_device_groups)
      in case build_devicegroup_objects pc limit dgs_to_child_dgs all_active all_device_groups
                Map.empty of
           Inl e \<Rightarrow> Inl e
         | Inr objs \<Rightarrow>
             (case build_exclusive_objects pc objs hierarchy_parent all_device_groups Map.empty of
                Inl e \<Rightarrow> Inl e
              | Inr excl \<Rightarrow>
                  Inr \<lparr>panorama = pano,
                       api_key = key,
                       pan_config = pc,
                       mandated_log_profile = config ''Mandated Logging Profile'',
                       allowed_group_profiles = allowed,
                       default_group_profile = config ''Default Group Profile'',
                       ignored_dns_prefixes = ignored,
                       device_group_hierarchy_children = hierarchy_children,
                       device_group_hierarchy_parent = hierarchy_parent,
                       device_groups_and_firewalls = dgs_and_fws,
                       device_groups = dgs,
                       devicegroup_objects = objs,
                       devicegroup_exclusive_objects = excl,
                       rule_limit_enabled = (limit \<noteq> None),
                       verbose = verbose_arg,
                       no_api = no_api_arg\<rparr>))))"

section \<open>Hostname validators\<close>

text \<open>\<^verbatim>\<open>s.startswith(p)\<close>.\<close>

fun startswith :: "string \<Rightarrow> string \<Rightarrow> bool" where
  "startswith s [] = True"
| "startswith [] (p # ps) = False"
| "startswith (c # s) (p # ps) = (c = p \<and> startswith s ps)"

text \<open>An attribute inside an f-string: the string itself, or \<^verbatim>\<open>None\<close>.\<close>

definition fmt :: "string option \<Rightarrow> string" where
  "fmt x = (case x of None \<Rightarrow> ''None'' | Some s \<Rightarrow> s)"

definition quote :: char where
  "quote = CHR 0x27"

subsection \<open>Stage 1: \<^verbatim>\<open>find_badhostname\<close>\<close>

text \<open>
  The state of the three nested loops is the pair of the local set
  \<^verbatim>\<open>bad_address_objects\<close> and the list \<^verbatim>\<open>badentries\<close>. The innermost loop runs over
  the \<^verbatim>\<open>fqdn\<close> children of one address entry; \<^verbatim>\<open>fqdn_node.text.lower()\<close> is an
  AttributeError on an element without text.
\<close>

text \<open>
  The finding of one hostname that does not resolve:
  \<^verbatim>\<open>BadEntry(data=entry, text=text, device_group=device_group, entry_type='Addresses')\<close>
  with the text \<^verbatim>\<open>f"Device Group {device_group}'s address '{entry_name}' uses the
  following FQDN which doesn't resolve: '{fqdn_text}'"\<close>.
\<close>

definition address_finding :: "string \<Rightarrow> xml \<Rightarrow> string option \<Rightarrow> string \<Rightarrow> xml BadEntry" where
  "address_finding dg entry entry_name fqdn_text =
     \<lparr>data = entry,
      finding_text = ''Device Group '' @ dg @ [quote] @ ''s address '' @
        [quote] @ fmt entry_name @ [quote] @
        '' uses the following FQDN which doesn'' @ [quote] @
        ''t resolve: '' @ [quote] @ fqdn_text @ [quote],
      device_group = dg,
      entry_type = ''Addresses''\<rparr>"

fun check_fqdns :: "external \<Rightarrow> string list \<Rightarrow> string \<Rightarrow> xml \<Rightarrow> string option \<Rightarrow> xml list
    \<Rightarrow> string option set \<times> xml BadEntry list
    \<Rightarrow> py_error + (string option set \<times> xml BadEntry list)" where
  "check_fqdns ext prefixes dg entry entry_name [] st = Inr st"
| "check_fqdns ext prefixes dg entry entry_name (fqdn_node # rest) (bad_address_objects, badentries) =
     (case elem_text fqdn_node of
        None \<Rightarrow> Inl AttributeError
      | Some t \<Rightarrow>
         (let fqdn_text = lower ext t
          in if list_ex (\<lambda>ignored_prefix. startswith fqdn_text ignored_prefix) prefixes
             then check_fqdns ext prefixes dg entry entry_name rest (bad_address_objects, badentries)
             else (case cached_dns_lookup ext fqdn_text of
                     Some ip \<Rightarrow>
                       check_fqdns ext prefixes dg entry entry_name rest
                         (bad_address_objects, badentries)
                   | None \<Rightarrow>
                       check_fqdns ext prefixes dg entry entry_name rest
                         (insert entry_name bad_address_objects,
                          badentries @ [address_finding dg entry entry_name fqdn_text]))))"

fun check_addresses :: "external \<Rightarrow> string list \<Rightarrow> string \<Rightarrow> xml list
    \<Rightarrow> string option set \<times> xml BadEntry list
    \<Rightarrow> py_error + (string option set \<times> xml BadEntry list)" where
  "check_addresses ext prefixes dg [] st = Inr st"
| "check_addresses ext prefixes dg (entry # rest) st =
     (case check_fqdns ext prefixes dg entry (xml_get entry ''name'') (findall entry ''fqdn'') st of
        Inl e \<Rightarrow> Inl e
      | Inr st' \<Rightarrow> check_addresses ext prefixes dg rest st')"

fun check_hostnames :: "external \<Rightarrow> string list \<Rightarrow> (string \<rightharpoonup> dg_objects) \<Rightarrow> string list
    \<Rightarrow> string option set \<times> xml BadEntry list
    \<Rightarrow> py_error + (string option set \<times> xml BadEntry list)" where
  "check_hostnames ext prefixes objs [] st = Inr st"
| "check_hostnames ext prefixes objs (dg # rest) st =
     (case lookup_entries objs dg ''Addresses'' of
        Inl e \<Rightarrow> Inl e
      | Inr addresses \<Rightarrow>
         (case check_addresses ext prefixes dg addresses st of
            Inl e \<Rightarrow> Inl e
          | Inr st' \<Rightarrow> check_hostnames ext prefixes objs rest st'))"

definition find_badhostname :: "external \<Rightarrow> 'a ProfilePackage_scheme \<Rightarrow> py_error + xml BadEntry list" where
  "find_badhostname ext profilepackage =
     (case check_hostnames ext (map (lower ext) (ignored_dns_prefixes profilepackage))
             (devicegroup_objects profilepackage) (device_groups profilepackage) ({}, []) of
        Inl e \<Rightarrow> Inl e
      | Inr (bad_address_objects, badentries) \<Rightarrow> Inr badentries)"

subsection \<open>Stage 2: \<^verbatim>\<open>find_badhostnameusage\<close>\<close>

text \<open>The first loop: the address groups of \<^verbatim>\<open>devicegroup_objects\<close>.\<close>

fun check_address_groups :: "external \<Rightarrow> string option set \<Rightarrow> string \<Rightarrow> xml list
    \<Rightarrow> xml BadEntry list \<Rightarrow> py_error + xml BadEntry list" where
  "check_address_groups ext bad dg [] badentries = Inr badentries"
| "check_address_groups ext bad dg (entry # rest) badentries =
     (let address_group_members = map elem_text (findall2 entry ''static'' ''member'');
          bad_members = bad \<inter> set address_group_members
      in if bad_members \<noteq> {} then
           (case format_sorted ext bad_members of
              Inl e \<Rightarrow> Inl e
            | Inr shown \<Rightarrow>
                check_address_groups ext bad dg rest
                  (badentries @
                   [\<lparr>data = entry,
                     finding_text = ''Device Group '' @ dg @ [quote] @ ''s Address Group '' @
                       [quote] @ fmt (xml_get entry ''name'') @ [quote] @
                       '' uses the following address objects which don'' @ [quote] @
                       ''t resolve: '' @ shown,
                     device_group = dg,
                     entry_type = ''AddressGroups''\<rparr>]))
         else check_address_groups ext bad dg rest badentries)"

fun check_group_usage :: "external \<Rightarrow> string option set \<Rightarrow> (string \<rightharpoonup> dg_objects)
    \<Rightarrow> string list \<Rightarrow> xml BadEntry list \<Rightarrow> py_error + xml BadEntry list" where
  "check_group_usage ext bad objs [] badentries = Inr badentries"
| "check_group_usage ext bad objs (dg # rest) badentries =
     (case lookup_entries objs dg ''AddressGroups'' of
        Inl e \<Rightarrow> Inl e
      | Inr groups \<Rightarrow>
         (case check_address_groups ext bad dg groups badentries of
            Inl e \<Rightarrow> Inl e
          | Inr badentries' \<Rightarrow> check_group_usage ext bad objs rest badentries'))"

text \<open>
  The second loop: the security rules of \<^verbatim>\<open>devicegroup_exclusive_objects\<close>. A rule
  whose first \<^verbatim>\<open>disabled\<close> child has the text \<^verbatim>\<open>yes\<close> is skipped.
\<close>

definition is_disabled :: "xml \<Rightarrow> bool" where
  "is_disabled entry =
     (find_child entry ''disabled'' \<noteq> None \<and>
      elem_text (the (find_child entry ''disabled'')) = Some ''yes'')"

text \<open>
  The text of a rule's finding: \<^verbatim>\<open>f"Device Group {device_group}'s {ruletype}
  '{rule_name}' {direction} contain the following address objects which don't resolve:
  {sorted(bad_members)}"\<close>.
\<close>

definition rule_usage_text :: "string \<Rightarrow> string \<Rightarrow> string option \<Rightarrow> string \<Rightarrow> string \<Rightarrow> string" where
  "rule_usage_text dg ruletype rule_name direction shown =
     ''Device Group '' @ dg @ [quote] @ ''s '' @ ruletype @ '' '' @ [quote] @ fmt rule_name @
     [quote] @ '' '' @ direction @ '' contain the following address objects which don'' @
     [quote] @ ''t resolve: '' @ shown"

fun check_members :: "external \<Rightarrow> string option set \<Rightarrow> string \<Rightarrow> string \<Rightarrow> xml
    \<Rightarrow> (string option set \<times> string) list \<Rightarrow> xml BadEntry list
    \<Rightarrow> py_error + xml BadEntry list" where
  "check_members ext bad dg ruletype entry [] badentries = Inr badentries"
| "check_members ext bad dg ruletype entry ((members, direction) # rest) badentries =
     (let bad_members = bad \<inter> members
      in if bad_members \<noteq> {} then
           (case format_sorted ext bad_members of
              Inl e \<Rightarrow> Inl e
            | Inr shown \<Rightarrow>
                check_members ext bad dg ruletype entry rest
                  (badentries @
                   [\<lparr>data = entry,
                     finding_text =
                       rule_usage_text dg ruletype (xml_get entry ''name'') direction shown,
                     device_group = dg,
                     entry_type = ruletype\<rparr>]))
         else check_members ext bad dg ruletype entry rest badentries)"

fun check_rules :: "external \<Rightarrow> string option set \<Rightarrow> string \<Rightarrow> string \<Rightarrow> xml list
    \<Rightarrow> xml BadEntry list \<Rightarrow> py_error + xml BadEntry list" where
  "check_rules ext bad dg ruletype [] badentries = Inr badentries"
| "check_rules ext bad dg ruletype (entry # rest) badentries =
     (if is_disabled entry then check_rules ext bad dg ruletype rest badentries
      else
        (let source_members = set (map elem_text (findall2 entry ''source'' ''member''));
             dest_members = set (map elem_text (findall2 entry ''destination'' ''member''))
         in case check_members ext bad dg ruletype entry
                   [(source_members, ''Source''), (dest_members, ''Dest'')] badentries of
              Inl e \<Rightarrow> Inl e
            | Inr badentries' \<Rightarrow> check_rules ext bad dg ruletype rest badentries'))"

text \<open>\<^verbatim>\<open>devicegroup_exclusive_objects[dg][ruletype]\<close>.\<close>

definition lookup_exclusive :: "(string \<rightharpoonup> (string \<rightharpoonup> xml list)) \<Rightarrow> string \<Rightarrow> string
    \<Rightarrow> py_error + xml list" where
  "lookup_exclusive excl dg category =
     (case excl dg of
        None \<Rightarrow> Inl (KeyError dg)
      | Some m \<Rightarrow> (case m category of None \<Rightarrow> Inl (KeyError category) | Some xs \<Rightarrow> Inr xs))"

fun check_ruletypes :: "external \<Rightarrow> string option set \<Rightarrow> (string \<rightharpoonup> (string \<rightharpoonup> xml list))
    \<Rightarrow> string \<Rightarrow> string list \<Rightarrow> xml BadEntry list \<Rightarrow> py_error + xml BadEntry list" where
  "check_ruletypes ext bad excl dg [] badentries = Inr badentries"
| "check_ruletypes ext bad excl dg (ruletype # rest) badentries =
     (case lookup_exclusive excl dg ruletype of
        Inl e \<Rightarrow> Inl e
      | Inr rules \<Rightarrow>
         (case check_rules ext bad dg ruletype rules badentries of
            Inl e \<Rightarrow> Inl e
          | Inr badentries' \<Rightarrow> check_ruletypes ext bad excl dg rest badentries'))"

fun check_rule_usage :: "external \<Rightarrow> string option set \<Rightarrow> (string \<rightharpoonup> (string \<rightharpoonup> xml list))
    \<Rightarrow> string list \<Rightarrow> xml BadEntry list \<Rightarrow> py_error + xml BadEntry list" where
  "check_rule_usage ext bad excl [] badentries = Inr badentries"
| "check_rule_usage ext bad excl (dg # rest) badentries =
     (case check_ruletypes ext bad excl dg [''SecurityPreRules'', ''SecurityPostRules'']
             badentries of
        Inl e \<Rightarrow> Inl e
      | Inr badentries' \<Rightarrow> check_rule_usage ext bad excl rest badentries')"

text \<open>
  The validator obtains \<^verbatim>\<open>find_badhostname\<close> from the registry, where the decorator of
  the same module has put it, and calls it; the names of its findings' entries are the
  bad addresses.
\<close>

definition find_badhostnameusage :: "external \<Rightarrow> 'a ProfilePackage_scheme
    \<Rightarrow> py_error + xml BadEntry list" where
  "find_badhostnameusage ext profilepackage =
     (case find_badhostname ext profilepackage of
        Inl e \<Rightarrow> Inl e
      | Inr bad_hostname_results \<Rightarrow>
         (let bad_address_objects =
                set (map (\<lambda>entry. xml_get (data entry) ''name'') bad_hostname_results)
          in case check_group_usage ext bad_address_objects (devicegroup_objects profilepackage)
                    (device_groups profilepackage) [] of
               Inl e \<Rightarrow> Inl e
             | Inr badentries \<Rightarrow>
                 check_rule_usage ext bad_address_objects
                   (devicegroup_exclusive_objects profilepackage)
                   (device_groups profilepackage) badentries))"

subsection \<open>Notions used to state the validators' properties\<close>

text \<open>
  The hostnames of an address entry that Stage 1 reports: the lower-cased texts of its
  \<^verbatim>\<open>fqdn\<close> children, in order, that start with no ignored prefix and for which the
  lookup returns None.
\<close>

definition unresolved_hostnames :: "external \<Rightarrow> string list \<Rightarrow> xml \<Rightarrow> string list" where
  "unresolved_hostnames ext prefixes entry =
     filter (\<lambda>t. \<not> list_ex (startswith t) prefixes \<and> cached_dns_lookup ext t = None)
       (map (\<lambda>n. lower ext (the (elem_text n))) (findall entry ''fqdn''))"

text \<open>The entries a lookup yields, and no entries where the lookup is a KeyError.\<close>

definition entries_of :: "(string \<rightharpoonup> dg_objects) \<Rightarrow> string \<Rightarrow> string \<Rightarrow> xml list" where
  "entries_of objs dg category =
     (case lookup_entries objs dg category of Inl e \<Rightarrow> [] | Inr xs \<Rightarrow> xs)"

definition exclusive_of :: "(string \<rightharpoonup> (string \<rightharpoonup> xml list)) \<Rightarrow> string \<Rightarrow> string \<Rightarrow> xml list" where
  "exclusive_of excl dg category =
     (case lookup_exclusive excl dg category of Inl e \<Rightarrow> [] | Inr xs \<Rightarrow> xs)"





section \<open>The text report: \<^verbatim>\<open>write_validator_output\<close>\<close>

definition newline :: char where
  "newline = CHR 0x0A"

definition hashes :: string where
  "hashes = replicate 80 CHR ''#''"

text \<open>\<^verbatim>\<open>str(n)\<close> for a length: its decimal digits.\<close>

definition digit :: "nat \<Rightarrow> char" where
  "digit d = ''0123456789'' ! d"

function str_nat :: "nat \<Rightarrow> string" where
  "str_nat n = (if n < 10 then [digit n] else str_nat (n div 10) @ [digit (n mod 10)])"
  by pat_completeness auto
termination
  by (relation "measure id") auto

declare str_nat.simps [simp del]

text \<open>
  The file is the string of everything written to it, in order. \<^verbatim>\<open>problems\<close> is the
  dictionary from (name, description) to the findings, as the list of its items.
\<close>

fun write_problem_entries :: "'d BadEntry list \<Rightarrow> string \<Rightarrow> string" where
  "write_problem_entries [] fh = fh"
| "write_problem_entries (problem_entry # rest) fh =
     write_problem_entries rest (fh @ finding_text problem_entry @ [newline])"

fun write_problems :: "((string \<times> string) \<times> 'd BadEntry list) list \<Rightarrow> string \<Rightarrow> string" where
  "write_problems [] fh = fh"
| "write_problems ((validator_info, problem_entries) # rest) fh =
     (let (validator_name, validator_description) = validator_info;
          fh1 = fh @ hashes @ [newline];
          fh2 = fh1 @ validator_name @ '': '' @ validator_description @ '' ('' @
                  str_nat (length problem_entries) @ '')'' @ [newline];
          fh3 = fh2 @ hashes @ [newline];
          fh4 = write_problem_entries problem_entries fh3;
          fh5 = fh4 @ [newline]
      in write_problems rest fh5)"

text \<open>
  The result is the content of the file \<^verbatim>\<open>fname\<close>, or None when nothing was opened.
\<close>

definition write_validator_output :: "((string \<times> string) \<times> 'd BadEntry list) list \<Rightarrow> string
    \<Rightarrow> string \<Rightarrow> py_error + string option" where
  "write_validator_output problems fname format =
     (let supported_output_formats = [''text'']
      in if format \<notin> set supported_output_formats then Inl (UnsupportedFormat format)
         else if format = ''text'' then Inr (Some (write_problems problems []))
         else Inr None)"

section \<open>An example configuration\<close>

text \<open>
  Three device groups: \<^verbatim>\<open>shared\<close>, its child \<^verbatim>\<open>A\<close>, and \<^verbatim>\<open>B\<close>, the child of
  \<^verbatim>\<open>A\<close>. The theorems below are instantiated on it.
\<close>

definition member :: "string \<Rightarrow> xml" where
  "member n = Element ''member'' [] (Some n) []"

definition addr_bad :: xml where
  "addr_bad = Element ''entry'' [(''name'', ''bad.example'')] None
     [Element ''fqdn'' [] (Some ''bad.example.com'') []]"

definition addr_ok :: xml where
  "addr_ok = Element ''entry'' [(''name'', ''good.example'')] None
     [Element ''fqdn'' [] (Some ''good.example.com'') []]"

definition addr_two :: xml where
  "addr_two = Element ''entry'' [(''name'', ''two.example'')] None
     [Element ''fqdn'' [] (Some ''a.invalid'') [], Element ''fqdn'' [] (Some ''b.invalid'') []]"

definition group1 :: xml where
  "group1 = Element ''entry'' [(''name'', ''grp'')] None
     [Element ''static'' [] None [member ''bad.example'', member ''good.example'']]"

text \<open>
  \<open>rule1\<close> is declared in \<^verbatim>\<open>shared\<close> and inherited below it. \<open>rule2\<close> is disabled.
  \<open>rule3\<close> is \<open>rule1\<close> with another \<^verbatim>\<open>@uuid\<close>. \<open>rule4\<close> names the bad address as
  source and as destination.
\<close>

definition rule1 :: xml where
  "rule1 = Element ''entry'' [(''name'', ''r1''), (''@uuid'', ''1'')] None
     [Element ''source'' [] None [member ''any''],
      Element ''destination'' [] None [member ''bad.example'']]"

definition rule2 :: xml where
  "rule2 = Element ''entry'' [(''name'', ''r2''), (''@uuid'', ''2'')] None
     [Element ''source'' [] None [member ''bad.example''],
      Element ''destination'' [] None [member ''any''],
      Element ''disabled'' [] (Some ''yes'') []]"

definition rule3 :: xml where
  "rule3 = Element ''entry'' [(''name'', ''r1''), (''@uuid'', ''3'')] None
     [Element ''source'' [] None [member ''any''],
      Element ''destination'' [] None [member ''bad.example'']]"

definition rule4 :: xml where
  "rule4 = Element ''entry'' [(''name'', ''r4''), (''@uuid'', ''4'')] None
     [Element ''source'' [] None [member ''bad.example''],
      Element ''destination'' [] None [member ''bad.example'']]"

definition ex_policies :: "string \<Rightarrow> string \<Rightarrow> string option \<Rightarrow> xml list" where
  "ex_policies policy_type kind dg =
     (if policy_type = ''SecurityPreRules'' then
        (if kind = ''shared'' then [rule1]
         else if dg = Some ''A'' then [rule1, rule2, rule3]
         else if dg = Some ''B'' then [rule1, rule2, rule3, rule4]
         else [])
      else [])"

definition ex_objects :: "string \<Rightarrow> string \<Rightarrow> string option \<Rightarrow> xml list" where
  "ex_objects object_type kind dg =
     (if object_type = ''Addresses'' then
        (if kind = ''shared'' then [addr_bad, addr_ok]
         else if dg = Some ''A'' then [addr_two, addr_ok]
         else [])
      else if object_type = ''AddressGroups'' then
        (if kind = ''shared'' then [group1] else [])
      else [])"

definition ex_config :: PanConfig where
  "ex_config =
     \<lparr>SUPPORTED_POLICY_TYPES = [''SecurityPreRules'', ''SecurityPostRules''],
      SUPPORTED_OBJECT_TYPES = [''Addresses'', ''AddressGroups''],
      get_major_version = 10,
      get_device_groups = [''A'', ''B''],
      get_device_groups_hierarchy =
        ([''shared'' \<mapsto> [''A''], ''A'' \<mapsto> [''B'']], [''A'' \<mapsto> ''shared'', ''B'' \<mapsto> ''A'']),
      get_devicegroup_policy = ex_policies,
      get_devicegroup_object = ex_objects\<rparr>"

definition ex_shown :: string where
  "ex_shown = ''['' @ [quote] @ ''bad.example'' @ [quote] @ '']''"

definition ex_external :: external where
  "ex_external =
     \<lparr>parse_xml_file = (\<lambda>f. Inr ex_config),
      export_configuration2 = (\<lambda>p k. Inr ex_config),
      get_device_groups_and_firewalls =
        (\<lambda>p k. Inr [''A'' \<mapsto> [''fw1''], ''B'' \<mapsto> [''fw1'', ''fw2'', ''fw3'']]),
      get_active_firewalls = (\<lambda>p k. Inr [''fw1'', ''fw2'']),
      squash_all_devicegroups =
        (\<lambda>dgs children.
           [''A'' \<mapsto> [''A'', ''B''], ''B'' \<mapsto> [''B''], ''shared'' \<mapsto> [''A'', ''B'', ''shared'']]),
      cached_dns_lookup = (\<lambda>h. if h = ''good.example.com'' then Some ''10.0.0.1'' else None),
      lower = (\<lambda>s. s),
      format_sorted = (\<lambda>s. if s = {Some ''bad.example''} then Inr ex_shown else Inl TypeError)\<rparr>"

definition ex_settings :: "string \<rightharpoonup> string" where
  "ex_settings = [''Panorama'' \<mapsto> ''pano'', ''Ignored DNS Prefixes'' \<mapsto> ''pc-,iphone'']"

text \<open>The snapshot \<^verbatim>\<open>load_config_package\<close> builds from it, without a limit.\<close>

definition ex_package :: ProfilePackage where
  "ex_package =
     \<lparr>panorama = ''pano'',
      api_key = ''key'',
      pan_config = ex_config,
      mandated_log_profile = None,
      allowed_group_profiles = [],
      default_group_profile = None,
      ignored_dns_prefixes = [''pc-'', ''iphone''],
      device_group_hierarchy_children = [''shared'' \<mapsto> [''A''], ''A'' \<mapsto> [''B'']],
      device_group_hierarchy_parent = [''A'' \<mapsto> ''shared'', ''B'' \<mapsto> ''A''],
      device_groups_and_firewalls = [''A'' \<mapsto> [''fw1''], ''B'' \<mapsto> [''fw1'', ''fw2'', ''fw3'']],
      device_groups = [''A'', ''B'', ''shared''],
      devicegroup_objects =
        [''A'' \<mapsto>
           \<lparr>all_child_device_groups = [''A'', ''B''],
            all_active_child_firewalls = [''fw1'', ''fw1'', ''fw2''],
            entries = [''SecurityPreRules'' \<mapsto> [rule1, rule2, rule3],
                       ''SecurityPostRules'' \<mapsto> [],
                       ''Addresses'' \<mapsto> [addr_two, addr_ok],
                       ''AddressGroups'' \<mapsto> []]\<rparr>,
         ''B'' \<mapsto>
           \<lparr>all_child_device_groups = [''B''],
            all_active_child_firewalls = [''fw1'', ''fw2''],
            entries = [''SecurityPreRules'' \<mapsto> [rule1, rule2, rule3, rule4],
                       ''SecurityPostRules'' \<mapsto> [],
                       ''Addresses'' \<mapsto> [],
                       ''AddressGroups'' \<mapsto> []]\<rparr>,
         ''shared'' \<mapsto>
           \<lparr>all_child_device_groups = [''A'', ''B'', ''shared''],
            all_active_child_firewalls = [''fw1'', ''fw1'', ''fw2''],
            entries = [''SecurityPreRules'' \<mapsto> [rule1],
                       ''SecurityPostRules'' \<mapsto> [],
                       ''Addresses'' \<mapsto> [addr_bad, addr_ok],
                       ''AddressGroups'' \<mapsto> [group1]]\<rparr>],
      devicegroup_exclusive_objects =
        [''A'' \<mapsto> [''SecurityPreRules'' \<mapsto> [rule2, rule3], ''SecurityPostRules'' \<mapsto> []],
         ''B'' \<mapsto> [''SecurityPreRules'' \<mapsto> [rule4], ''SecurityPostRules'' \<mapsto> []],
         ''shared'' \<mapsto> [''SecurityPreRules'' \<mapsto> [rule1], ''SecurityPostRules'' \<mapsto> []]],
      rule_limit_enabled = False,
      verbose = True,
      no_api = False\<rparr>"

text \<open>A package for the fixers, a finding of an unknown category and findings of known ones.\<close>

definition ex_fixer_package :: ProfilePackage_settings where
  "ex_fixer_package = ProfilePackage.extend ex_package
     (ProfilePackage_settings.fields [''Panorama'' \<mapsto> ''pano''])"

definition ex_finding :: "string \<Rightarrow> (xml \<times> string) BadEntry" where
  "ex_finding category =
     \<lparr>data = (addr_ok, ''replacement''), finding_text = ''equivalent'',
      device_group = ''A'', entry_type = category\<rparr>"

text \<open>Findings of two validators, for the report.\<close>

definition ex_problems :: "((string \<times> string) \<times> (xml \<times> string) BadEntry list) list" where
  "ex_problems =
     [((''FindConsolidatableAddresses'', ''Equivalent addresses''),
       [ex_finding ''Addresses'', ex_finding ''AddressGroups'']),
      ((''DisabledPolicies'', ''Policy objects that are disabled''), [])]"

section \<open>An example with entries as the parser delivers them\<close>

text \<open>
  In an exported configuration the identity of a rule is the attribute \<^verbatim>\<open>uuid\<close>; the
  name of an XML attribute cannot start with \<^verbatim>\<open>@\<close>. The device group \<^verbatim>\<open>shared\<close>
  declares \<open>parsed_rule1\<close>, the address that does not resolve and the address group
  \<open>group1\<close> that uses it; its child \<^verbatim>\<open>A\<close> declares \<open>parsed_rule5\<close>, an enabled
  rule with another name and another \<^verbatim>\<open>uuid\<close> whose destination is the address that
  does not resolve.
\<close>

definition parsed_rule1 :: xml where
  "parsed_rule1 = Element ''entry'' [(''name'', ''r1''), (''uuid'', ''1'')] None
     [Element ''source'' [] None [member ''any''],
      Element ''destination'' [] None [member ''bad.example'']]"

definition parsed_rule5 :: xml where
  "parsed_rule5 = Element ''entry'' [(''name'', ''r5''), (''uuid'', ''5'')] None
     [Element ''source'' [] None [member ''any''],
      Element ''destination'' [] None [member ''bad.example'']]"

definition parsed_policies :: "string \<Rightarrow> string \<Rightarrow> string option \<Rightarrow> xml list" where
  "parsed_policies policy_type kind dg =
     (if policy_type = ''SecurityPreRules'' then
        (if kind = ''shared'' then [parsed_rule1]
         else if dg = Some ''A'' then [parsed_rule5]
         else [])
      else [])"

definition parsed_objects :: "string \<Rightarrow> string \<Rightarrow> string option \<Rightarrow> xml list" where
  "parsed_objects object_type kind dg =
     (if kind = ''shared'' then
        (if object_type = ''Addresses'' then [addr_bad]
         else if object_type = ''AddressGroups'' then [group1]
         else [])
      else [])"

definition parsed_config :: PanConfig where
  "parsed_config =
     \<lparr>SUPPORTED_POLICY_TYPES = [''SecurityPreRules'', ''SecurityPostRules''],
      SUPPORTED_OBJECT_TYPES = [''Addresses'', ''AddressGroups''],
      get_major_version = 10,
      get_device_groups = [''A''],
      get_device_groups_hierarchy = ([''shared'' \<mapsto> [''A'']], [''A'' \<mapsto> ''shared'']),
      get_devicegroup_policy = parsed_policies,
      get_devicegroup_object = parsed_objects\<rparr>"

definition parsed_external :: external where
  "parsed_external =
     \<lparr>parse_xml_file = (\<lambda>f. Inr parsed_config),
      export_configuration2 = (\<lambda>p k. Inr parsed_config),
      get_device_groups_and_firewalls = (\<lambda>p k. Inr [''A'' \<mapsto> [''fw1'']]),
      get_active_firewalls = (\<lambda>p k. Inr [''fw1'']),
      squash_all_devicegroups =
        (\<lambda>dgs children. [''A'' \<mapsto> [''A''], ''shared'' \<mapsto> [''A'', ''shared'']]),
      cached_dns_lookup = (\<lambda>h. if h = ''good.example.com'' then Some ''10.0.0.1'' else None),
      lower = (\<lambda>s. s),
      format_sorted = (\<lambda>s. if s = {Some ''bad.example''} then Inr ex_shown else Inl TypeError)\<rparr>"

text \<open>The snapshot \<^verbatim>\<open>load_config_package\<close> builds from it.\<close>

definition parsed_package :: ProfilePackage where
  "parsed_package =
     \<lparr>panorama = ''pano'',
      api_key = ''key'',
      pan_config = parsed_config,
      mandated_log_profile = None,
      allowed_group_profiles = [],
      default_group_profile = None,
      ignored_dns_prefixes = [''pc-'', ''iphone''],
      device_group_hierarchy_children = [''shared'' \<mapsto> [''A'']],
      device_group_hierarchy_parent = [''A'' \<mapsto> ''shared''],
      device_groups_and_firewalls = [''A'' \<mapsto> [''fw1'']],
      device_groups = [''A'', ''shared''],
      devicegroup_objects =
        [''A'' \<mapsto>
           \<lparr>all_child_device_groups = [''A''],
            all_active_child_firewalls = [''fw1''],
            entries = [''SecurityPreRules'' \<mapsto> [parsed_rule5],
                       ''SecurityPostRules'' \<mapsto> [],
                       ''Addresses'' \<mapsto> [],
                       ''AddressGroups'' \<mapsto> []]\<rparr>,
         ''shared'' \<mapsto>
           \<lparr>all_child_device_groups = [''A'', ''shared''],
            all_active_child_firewalls = [''fw1''],
            entries = [''SecurityPreRules'' \<mapsto> [parsed_rule1],
                       ''SecurityPostRules'' \<mapsto> [],
                       ''Addresses'' \<mapsto> [addr_bad],
                       ''AddressGroups'' \<mapsto> [group1]]\<rparr>],
      devicegroup_exclusive_objects =
        [''A'' \<mapsto> [''SecurityPreRules'' \<mapsto> [], ''SecurityPostRules'' \<mapsto> []],
         ''shared'' \<mapsto> [''SecurityPreRules'' \<mapsto> [parsed_rule1], ''SecurityPostRules'' \<mapsto> []]],
      rule_limit_enabled = False,
      verbose = True,
      no_api = False\<rparr>"

text \<open>A finding whose text holds a newline, for the report.\<close>

definition ex_two_line_finding :: "xml BadEntry" where
  "ex_two_line_finding =
     \<lparr>data = addr_ok, finding_text = ''a'' @ [newline] @ ''b'',
      device_group = ''A'', entry_type = ''Addresses''\<rparr>"

section \<open>Properties of the consolidation fixers\<close>

lemma issue_ok: "\<not> fails tr c \<Longrightarrow> issue fails c tr = (Inr (), tr @ [c])"
  by (simp add: issue_def)

lemma issue_all_ok:
  assumes "\<And>tr c. \<not> fails tr c"
  shows "issue_all fails cs tr = (Inr (), tr @ cs)"
  by (induction cs arbitrary: tr) (simp_all add: issue_ok[OF assms])

lemma issue_all_append:
  "issue_all fails (xs @ ys) tr =
     (case issue_all fails xs tr of
        (Inl e, tr') \<Rightarrow> (Inl e, tr')
      | (Inr u, tr') \<Rightarrow> issue_all fails ys tr')"
  by (induction xs arbitrary: tr) (auto split: prod.splits sum.splits)

lemma replace_contents_issue_all:
  "replace_contents fails pc pano version key bs tr =
     issue_all fails (concat (map (\<lambda>b.
       if entry_type b \<in> set (SUPPORTED_OBJECT_TYPES pc)
       then [Update_devicegroup_object pano version key (snd (data b)) (entry_type b) (device_group b)]
       else if entry_type b \<in> set (SUPPORTED_POLICY_TYPES pc)
       then [Update_devicegroup_policy pano version key (snd (data b)) (entry_type b) (device_group b)]
       else []) bs)) tr"
proof (induction bs arbitrary: tr)
  case Nil
  show ?case by simp
next
  case (Cons b bs)
  show ?case
    by (simp add: Cons.IH split_beta issue_all_append split: prod.splits sum.splits)
qed

lemma ex_fixer_package_fields:
  "settings ex_fixer_package = [''Panorama'' \<mapsto> ''pano'']"
  "api_key ex_fixer_package = ''key''"
  "pan_config ex_fixer_package = ex_config"
  by (simp_all add: ex_fixer_package_def ex_package_def ProfilePackage.extend_def
      ProfilePackage_settings.fields_def)

text \<open>
  C2. When the paired validator returns no findings, a consolidation fixer issues no
  remote call at all (no object update, no policy update, no validation of the pending
  changes) and returns the empty list. This holds for the shared routine and for each
  of the four registered fixers, whatever the remote side would answer.
\<close>

theorem consolidation_noop:
  "validator_function profilepackage = [] \<Longrightarrow>
     consolidate_service_like_objects fails profilepackage object_friendly_type validator_function
       = (Inr [], [])
   \<and> (registry ''FindConsolidatableServices'' = Some (n, d, validator_function) \<longrightarrow>
        consolidate_services registry fails profilepackage = (Inr [], []))
   \<and> (registry ''FindConsolidatableServiceGroups'' = Some (n, d, validator_function) \<longrightarrow>
        consolidate_servicegroups registry fails profilepackage = (Inr [], []))
   \<and> (registry ''FindConsolidatableAddresses'' = Some (n, d, validator_function) \<longrightarrow>
        consolidate_addresses registry fails profilepackage = (Inr [], []))
   \<and> (registry ''FindConsolidatableAddresseGroups'' = Some (n, d, validator_function) \<longrightarrow>
        consolidate_addressgroups registry fails profilepackage = (Inr [], []))"
  by (simp add: consolidate_service_like_objects_def consolidate_services_def
      consolidate_servicegroups_def consolidate_addresses_def consolidate_addressgroups_def
      consolidate_with_def)

theorem consolidation_noop_witness:
  "consolidate_service_like_objects (\<lambda>tr c. True) ex_fixer_package ''Service''
       (\<lambda>p. ([] :: (xml \<times> string) BadEntry list))
     = (Inr [], ([] :: string api_call list))
   \<and> consolidate_services
       [''FindConsolidatableServices'' \<mapsto>
          (''FindConsolidatableServices'', ''Equivalent services'',
           (\<lambda>p. ([] :: (xml \<times> string) BadEntry list)))]
       (\<lambda>tr c. True) ex_fixer_package
     = (Inr [], ([] :: string api_call list))"
  using consolidation_noop [of "\<lambda>p. ([] :: (xml \<times> string) BadEntry list)" ex_fixer_package
      "\<lambda>tr c. True" "''Service''"
      "[''FindConsolidatableServices'' \<mapsto>
          (''FindConsolidatableServices'', ''Equivalent services'',
           (\<lambda>p. ([] :: (xml \<times> string) BadEntry list)))]"
      "''FindConsolidatableServices''" "''Equivalent services''"]
  by simp

text \<open>
  C3, as the code has it. The loop has an \<^verbatim>\<open>if\<close> for the object categories and an
  \<^verbatim>\<open>elif\<close> for the policy categories and no \<^verbatim>\<open>else\<close>: a finding whose category is in
  neither list causes no call and no error, and the loop goes on. For a non-empty list
  of findings and any remote side, what the fixer sends is, in the order of the
  findings, one object update for each finding of an object category, one policy update
  for each finding of a category that is a policy category and not an object category,
  nothing for any other finding, and one final validation, issued up to the first call
  that fails; when none fails the result is the list of findings. Each registered fixer
  is this routine on the validator it finds in the registry.
\<close>

theorem dispatch_by_category:
  assumes "validator_function profilepackage = bs" and "bs \<noteq> []"
  shows "consolidate_service_like_objects fails profilepackage object_friendly_type validator_function =
      (case issue_all fails
              (concat (map (\<lambda>b.
                 if entry_type b \<in> set (SUPPORTED_OBJECT_TYPES (pan_config profilepackage))
                 then [Update_devicegroup_object (settings profilepackage ''Panorama'')
                         (get_major_version (pan_config profilepackage)) (api_key profilepackage)
                         (snd (data b)) (entry_type b) (device_group b)]
                 else if entry_type b \<in> set (SUPPORTED_POLICY_TYPES (pan_config profilepackage))
                 then [Update_devicegroup_policy (settings profilepackage ''Panorama'')
                         (get_major_version (pan_config profilepackage)) (api_key profilepackage)
                         (snd (data b)) (entry_type b) (device_group b)]
                 else []) bs)
               @ [Validate_commit (settings profilepackage ''Panorama'') (api_key profilepackage)])
              [] of
         (Inl e, tr) \<Rightarrow> (Inl e, tr)
       | (Inr u, tr) \<Rightarrow> (Inr bs, tr))
   \<and> ((\<forall>tr c. \<not> fails tr c) \<longrightarrow>
     consolidate_service_like_objects fails profilepackage object_friendly_type validator_function =
      (Inr bs,
       concat (map (\<lambda>b.
         if entry_type b \<in> set (SUPPORTED_OBJECT_TYPES (pan_config profilepackage))
         then [Update_devicegroup_object (settings profilepackage ''Panorama'')
                 (get_major_version (pan_config profilepackage)) (api_key profilepackage)
                 (snd (data b)) (entry_type b) (device_group b)]
         else if entry_type b \<in> set (SUPPORTED_POLICY_TYPES (pan_config profilepackage))
         then [Update_devicegroup_policy (settings profilepackage ''Panorama'')
                 (get_major_version (pan_config profilepackage)) (api_key profilepackage)
                 (snd (data b)) (entry_type b) (device_group b)]
         else []) bs)
       @ [Validate_commit (settings profilepackage ''Panorama'') (api_key profilepackage)]))
   \<and> (registry ''FindConsolidatableServices'' = Some (n, d, validator_function) \<longrightarrow>
        consolidate_services registry fails profilepackage =
        consolidate_service_like_objects fails profilepackage ''Service'' validator_function)
   \<and> (registry ''FindConsolidatableServiceGroups'' = Some (n, d, validator_function) \<longrightarrow>
        consolidate_servicegroups registry fails profilepackage =
        consolidate_service_like_objects fails profilepackage ''Service Group'' validator_function)
   \<and> (registry ''FindConsolidatableAddresses'' = Some (n, d, validator_function) \<longrightarrow>
        consolidate_addresses registry fails profilepackage =
        consolidate_service_like_objects fails profilepackage ''Address'' validator_function)
   \<and> (registry ''FindConsolidatableAddresseGroups'' = Some (n, d, validator_function) \<longrightarrow>
        consolidate_addressgroups registry fails profilepackage =
        consolidate_service_like_objects fails profilepackage ''Address Group'' validator_function)"
proof -
  let ?calls = "concat (map (\<lambda>b.
                 if entry_type b \<in> set (SUPPORTED_OBJECT_TYPES (pan_config profilepackage))
                 then [Update_devicegroup_object (settings profilepackage ''Panorama'')
                         (get_major_version (pan_config profilepackage)) (api_key profilepackage)
                         (snd (data b)) (entry_type b) (device_group b)]
                 else if entry_type b \<in> set (SUPPORTED_POLICY_TYPES (pan_config profilepackage))
                 then [Update_devicegroup_policy (settings profilepackage ''Panorama'')
                         (get_major_version (pan_config profilepackage)) (api_key profilepackage)
                         (snd (data b)) (entry_type b) (device_group b)]
                 else []) bs)"
  let ?v = "Validate_commit (settings profilepackage ''Panorama'') (api_key profilepackage)"
  have general: "consolidate_service_like_objects fails profilepackage object_friendly_type
        validator_function =
      (case issue_all fails (?calls @ [?v]) [] of
         (Inl e, tr) \<Rightarrow> (Inl e, tr)
       | (Inr u, tr) \<Rightarrow> (Inr bs, tr))"
    using assms
    by (simp add: consolidate_service_like_objects_def Let_def replace_contents_issue_all
        issue_all_append split: prod.splits sum.splits)
  have quiet: "consolidate_service_like_objects fails profilepackage object_friendly_type
        validator_function = (Inr bs, ?calls @ [?v])"
    if "\<forall>tr c. \<not> fails tr c"
  proof -
    from that have ok: "\<And>tr c. \<not> fails tr c" by simp
    show ?thesis
      by (simp add: general issue_all_ok[OF ok])
  qed
  have fixers:
    "registry ''FindConsolidatableServices'' = Some (n, d, validator_function) \<longrightarrow>
        consolidate_services registry fails profilepackage =
        consolidate_service_like_objects fails profilepackage ''Service'' validator_function"
    "registry ''FindConsolidatableServiceGroups'' = Some (n, d, validator_function) \<longrightarrow>
        consolidate_servicegroups registry fails profilepackage =
        consolidate_service_like_objects fails profilepackage ''Service Group'' validator_function"
    "registry ''FindConsolidatableAddresses'' = Some (n, d, validator_function) \<longrightarrow>
        consolidate_addresses registry fails profilepackage =
        consolidate_service_like_objects fails profilepackage ''Address'' validator_function"
    "registry ''FindConsolidatableAddresseGroups'' = Some (n, d, validator_function) \<longrightarrow>
        consolidate_addressgroups registry fails profilepackage =
        consolidate_service_like_objects fails profilepackage ''Address Group'' validator_function"
    by (simp_all add: consolidate_services_def consolidate_servicegroups_def
        consolidate_addresses_def consolidate_addressgroups_def consolidate_with_def)
  from general quiet fixers show ?thesis by blast
qed

text \<open>
  Three findings (an unknown category, an object category, a policy category), once
  with a remote side that accepts every call and once with one that refuses the policy
  update: the unknown category is skipped both times. The registered fixer for
  addresses, on a registry that holds its validator, does the same.
\<close>

theorem dispatch_by_category_witness:
  "consolidate_service_like_objects (\<lambda>tr c. False) ex_fixer_package ''Address''
     (\<lambda>p. [ex_finding ''Bogus'', ex_finding ''Addresses'', ex_finding ''SecurityPreRules'']) =
   (Inr [ex_finding ''Bogus'', ex_finding ''Addresses'', ex_finding ''SecurityPreRules''],
    [Update_devicegroup_object (Some ''pano'') 10 ''key'' ''replacement'' ''Addresses'' ''A'',
     Update_devicegroup_policy (Some ''pano'') 10 ''key'' ''replacement'' ''SecurityPreRules'' ''A'',
     Validate_commit (Some ''pano'') ''key''])
   \<and> consolidate_service_like_objects
       (\<lambda>tr c. c = Update_devicegroup_policy (Some ''pano'') 10 ''key'' ''replacement''
                      ''SecurityPreRules'' ''A'')
       ex_fixer_package ''Address''
       (\<lambda>p. [ex_finding ''Bogus'', ex_finding ''Addresses'', ex_finding ''SecurityPreRules'']) =
     (Inl RemoteError,
      [Update_devicegroup_object (Some ''pano'') 10 ''key'' ''replacement'' ''Addresses'' ''A'',
       Update_devicegroup_policy (Some ''pano'') 10 ''key'' ''replacement'' ''SecurityPreRules'' ''A''])
   \<and> consolidate_addresses
       [''FindConsolidatableAddresses'' \<mapsto> (''FindConsolidatableAddresses'', ''Equivalent addresses'',
          \<lambda>p. [ex_finding ''Bogus'', ex_finding ''Addresses'', ex_finding ''SecurityPreRules''])]
       (\<lambda>tr c. False) ex_fixer_package =
     (Inr [ex_finding ''Bogus'', ex_finding ''Addresses'', ex_finding ''SecurityPreRules''],
      [Update_devicegroup_object (Some ''pano'') 10 ''key'' ''replacement'' ''Addresses'' ''A'',
       Update_devicegroup_policy (Some ''pano'') 10 ''key'' ''replacement'' ''SecurityPreRules'' ''A'',
       Validate_commit (Some ''pano'') ''key''])"
  using dispatch_by_category [where
      validator_function = "\<lambda>p. [ex_finding ''Bogus'', ex_finding ''Addresses'', ex_finding ''SecurityPreRules'']"
      and profilepackage = ex_fixer_package
      and bs = "[ex_finding ''Bogus'', ex_finding ''Addresses'', ex_finding ''SecurityPreRules'']"
      and fails = "\<lambda>tr c. False" and object_friendly_type = "''Address''"
      and registry = "[''FindConsolidatableAddresses'' \<mapsto> (''FindConsolidatableAddresses'', ''Equivalent addresses'',
          \<lambda>p. [ex_finding ''Bogus'', ex_finding ''Addresses'', ex_finding ''SecurityPreRules''])]"
      and n = "''FindConsolidatableAddresses''" and d = "''Equivalent addresses''"]
    dispatch_by_category [where
      validator_function = "\<lambda>p. [ex_finding ''Bogus'', ex_finding ''Addresses'', ex_finding ''SecurityPreRules'']"
      and profilepackage = ex_fixer_package
      and bs = "[ex_finding ''Bogus'', ex_finding ''Addresses'', ex_finding ''SecurityPreRules'']"
      and fails = "\<lambda>tr c. c = Update_devicegroup_policy (Some ''pano'') 10 ''key'' ''replacement''
                      ''SecurityPreRules'' ''A''" and object_friendly_type = "''Address''"]
  by (simp add: ex_fixer_package_fields ex_config_def ex_finding_def issue_def)

text \<open>
  C3 as stated fails: a single finding of the category \<^verbatim>\<open>Bogus\<close>, which is neither an
  object category nor a policy category, raises nothing. The fixer skips it, validates
  the pending changes and returns the finding.
\<close>

theorem unsupported_category_is_skipped:
  "''Bogus'' \<notin> set (SUPPORTED_OBJECT_TYPES (pan_config ex_fixer_package))
   \<and> ''Bogus'' \<notin> set (SUPPORTED_POLICY_TYPES (pan_config ex_fixer_package))
   \<and> consolidate_service_like_objects (\<lambda>tr c. False) ex_fixer_package ''Address''
       (\<lambda>p. [ex_finding ''Bogus'']) =
     (Inr [ex_finding ''Bogus''], [Validate_commit (Some ''pano'') ''key''])"
  by (simp add: consolidate_service_like_objects_def Let_def issue_def ex_fixer_package_fields
      ex_config_def ex_finding_def)

section \<open>Properties of the text report\<close>

lemma write_problem_entries_eq:
  "write_problem_entries es fh = fh @ concat (map (\<lambda>e. finding_text e @ [newline]) es)"
  by (induction es arbitrary: fh) simp_all

lemma write_problems_eq:
  "write_problems ps fh = fh @ concat (map (\<lambda>((n, d), es).
      hashes @ [newline] @ n @ '': '' @ d @ '' ('' @ str_nat (length es) @ '')'' @ [newline] @
      hashes @ [newline] @ concat (map (\<lambda>e. finding_text e @ [newline]) es) @ [newline]) ps)"
proof (induction ps arbitrary: fh)
  case Nil
  show ?case by simp
next
  case (Cons p ps)
  obtain n d es where p: "p = ((n, d), es)" by (cases p) auto
  show ?case
    by (simp add: p Cons.IH write_problem_entries_eq)
qed

lemma split_on_nonempty: "split_on c s \<noteq> []"
  by (induction s) (auto split: list.splits)

lemma split_on_line: "c \<notin> set s \<Longrightarrow> split_on c (s @ c # rest) = s # split_on c rest"
  by (induction s) (auto split: list.splits)

lemma split_on_lines:
  "\<forall>l \<in> set ls. c \<notin> set l \<Longrightarrow>
     split_on c (concat (map (\<lambda>l. l @ [c]) ls) @ rest) = ls @ split_on c rest"
proof (induction ls)
  case Nil
  show ?case by simp
next
  case (Cons l ls)
  then show ?case
    using split_on_line[of c l "concat (map (\<lambda>l. l @ [c]) ls) @ rest"] by simp
qed

lemma digit_not_newline: "d < 10 \<Longrightarrow> digit d \<noteq> newline"
proof -
  assume "d < 10"
  then have "d \<in> {0, 1, 2, 3, 4, 5, 6, 7, 8, 9}" by auto
  then show ?thesis
    by (auto simp: digit_def newline_def)
qed

lemma str_nat_no_newline: "newline \<notin> set (str_nat n)"
proof (induction n rule: str_nat.induct)
  case (1 n)
  show ?case
  proof (cases "n < 10")
    case True
    then show ?thesis
      using digit_not_newline[of n] by (subst str_nat.simps) auto
  next
    case False
    have "n mod 10 < 10" by simp
    then have "digit (n mod 10) \<noteq> newline" by (rule digit_not_newline)
    with False 1 show ?thesis
      by (subst str_nat.simps) auto
  qed
qed

lemma hashes_no_newline: "newline \<notin> set hashes"
  by (simp add: hashes_def newline_def)

text \<open>
  C9, as the code has it. For every mapping of validators to their findings, the text
  report is, validator after validator, a line of hashes, the header with the
  validator's name, its description and the number of its findings in parentheses, a
  line of hashes, then for each finding its text followed by a newline, then a blank
  line. The text is written as it is: when no name, description or finding text
  contains a newline itself, the lines of the file are exactly these, one line per
  finding under each header, as many as the header counts.
\<close>

theorem report_one_line_per_finding:
  "write_validator_output problems fname ''text'' =
     Inr (Some (concat (map (\<lambda>((n, d), es).
       hashes @ [newline] @
       n @ '': '' @ d @ '' ('' @ str_nat (length es) @ '')'' @ [newline] @
       hashes @ [newline] @
       concat (map (\<lambda>e. finding_text e @ [newline]) es) @
       [newline]) problems)))
   \<and> ((\<forall>((n, d), es) \<in> set problems.
          newline \<notin> set n \<and> newline \<notin> set d \<and>
          (\<forall>e \<in> set es. newline \<notin> set (finding_text e))) \<longrightarrow>
        (\<exists>content. write_validator_output problems fname ''text'' = Inr (Some content) \<and>
           split_on newline content =
             concat (map (\<lambda>((n, d), es).
               [hashes, n @ '': '' @ d @ '' ('' @ str_nat (length es) @ '')'', hashes] @
               map finding_text es @ [[]]) problems) @ [[]]))"
proof (intro conjI impI)
  show "write_validator_output problems fname ''text'' =
     Inr (Some (concat (map (\<lambda>((n, d), es).
       hashes @ [newline] @
       n @ '': '' @ d @ '' ('' @ str_nat (length es) @ '')'' @ [newline] @
       hashes @ [newline] @
       concat (map (\<lambda>e. finding_text e @ [newline]) es) @
       [newline]) problems)))"
    by (simp add: write_validator_output_def write_problems_eq)
next
  assume clean: "\<forall>((n, d), es) \<in> set problems.
          newline \<notin> set n \<and> newline \<notin> set d \<and>
          (\<forall>e \<in> set es. newline \<notin> set (finding_text e))"
  have lines: "split_on newline (write_problems ps fh0 ) =
      split_on newline (fh0 @ concat (map (\<lambda>l. l @ [newline])
        (concat (map (\<lambda>((n, d), es).
               [hashes, n @ '': '' @ d @ '' ('' @ str_nat (length es) @ '')'', hashes] @
               map finding_text es @ [[]]) ps))))" for ps :: "((string \<times> string) \<times> 'a BadEntry list) list" and fh0
    by (induction ps arbitrary: fh0)
      (auto simp: write_problem_entries_eq map_concat comp_def)
  have lit: "newline \<noteq> CHR '':''" "newline \<noteq> CHR '' ''" "newline \<noteq> CHR ''(''"
    "newline \<noteq> CHR '')''"
    by (simp_all add: newline_def)
  have free: "\<forall>l \<in> set (concat (map (\<lambda>((n, d), es).
               [hashes, n @ '': '' @ d @ '' ('' @ str_nat (length es) @ '')'', hashes] @
               map finding_text es @ [[]]) problems)). newline \<notin> set l"
  proof
    fix l
    assume "l \<in> set (concat (map (\<lambda>((n, d), es).
               [hashes, n @ '': '' @ d @ '' ('' @ str_nat (length es) @ '')'', hashes] @
               map finding_text es @ [[]]) problems))"
    then obtain n d es where mem: "((n, d), es) \<in> set problems"
      and l: "l = hashes \<or> l = n @ '': '' @ d @ '' ('' @ str_nat (length es) @ '')''
              \<or> l \<in> finding_text ` set es \<or> l = []"
      by auto
    from clean mem have "newline \<notin> set n" "newline \<notin> set d"
      "\<forall>e \<in> set es. newline \<notin> set (finding_text e)"
      by auto
    with l show "newline \<notin> set l"
      using lit by (auto simp: hashes_no_newline str_nat_no_newline)
  qed
  show "\<exists>content. write_validator_output problems fname ''text'' = Inr (Some content) \<and>
           split_on newline content =
             concat (map (\<lambda>((n, d), es).
               [hashes, n @ '': '' @ d @ '' ('' @ str_nat (length es) @ '')'', hashes] @
               map finding_text es @ [[]]) problems) @ [[]]"
    using split_on_lines[OF free, of "[]"]
    by (simp add: write_validator_output_def lines)
qed

theorem report_one_line_per_finding_witness:
  "\<exists>content. write_validator_output ex_problems ''report.txt'' ''text'' = Inr (Some content) \<and>
     split_on newline content =
       [hashes, ''FindConsolidatableAddresses: Equivalent addresses (2)'', hashes,
        ''equivalent'', ''equivalent'', [],
        hashes, ''DisabledPolicies: Policy objects that are disabled (0)'', hashes, [],
        []]"
proof -
  have "\<forall>((n, d), es) \<in> set ex_problems.
          newline \<notin> set n \<and> newline \<notin> set d \<and>
          (\<forall>e \<in> set es. newline \<notin> set (finding_text e))"
    by (simp add: ex_problems_def ex_finding_def newline_def)
  with report_one_line_per_finding [of ex_problems "''report.txt''"]
  obtain content where "write_validator_output ex_problems ''report.txt'' ''text'' = Inr (Some content)"
    and "split_on newline content =
             concat (map (\<lambda>((n, d), es).
               [hashes, n @ '': '' @ d @ '' ('' @ str_nat (length es) @ '')'', hashes] @
               map finding_text es @ [[]]) ex_problems) @ [[]]"
    by blast
  then show ?thesis
    by (simp add: ex_problems_def ex_finding_def str_nat.simps digit_def)
qed

text \<open>
  C9 as stated fails for a finding whose text holds a newline: the header counts one
  finding and two lines follow it.
\<close>

theorem two_lines_for_one_finding:
  "\<exists>content. write_validator_output [((''V'', ''d''), [ex_two_line_finding])] ''report.txt'' ''text''
       = Inr (Some content) \<and>
     split_on newline content = [hashes, ''V: d (1)'', hashes, ''a'', ''b'', [], []]"
proof -
  have c: "write_validator_output [((''V'', ''d''), [ex_two_line_finding])] ''report.txt'' ''text'' =
      Inr (Some (concat (map (\<lambda>l. l @ [newline])
        [hashes, ''V: d (1)'', hashes, ''a'', ''b'', []]) @ []))"
    by (simp add: write_validator_output_def write_problems_eq ex_two_line_finding_def
        str_nat.simps digit_def)
  have "\<forall>l \<in> set [hashes, ''V: d (1)'', hashes, ''a'', ''b'', []]. newline \<notin> set l"
    using hashes_no_newline by (simp add: newline_def)
  from split_on_lines[OF this, of "[]"] c show ?thesis
    by simp
qed

section \<open>Properties of the snapshot\<close>

lemma fill_policies_lookup:
  "fill_policies pc kind dg limit pts m t =
     (if t \<in> set pts then Some (slice_to (get_devicegroup_policy pc t kind dg) limit) else m t)"
  by (induction pts arbitrary: m) auto

lemma fill_objects_lookup:
  "fill_objects pc kind dg ots m t =
     (if t \<in> set ots then Some (get_devicegroup_object pc t kind dg) else m t)"
  by (induction ots arbitrary: m) auto

lemma fetch_entries_lookup:
  "fetch_entries pc limit dg t =
     (if t \<in> set (SUPPORTED_OBJECT_TYPES pc)
      then Some (get_devicegroup_object pc t (if dg = ''shared'' then ''shared'' else ''device-group'')
                   (if dg = ''shared'' then None else Some dg))
      else if t \<in> set (SUPPORTED_POLICY_TYPES pc)
      then Some (slice_to (get_devicegroup_policy pc t
                   (if dg = ''shared'' then ''shared'' else ''device-group'')
                   (if dg = ''shared'' then None else Some dg)) limit)
      else None)"
  by (simp add: fetch_entries_def fill_objects_lookup fill_policies_lookup)

lemma build_devicegroup_objects_lookup:
  "build_devicegroup_objects pc limit d2c all_active dgs objs = Inr objs' \<Longrightarrow>
     objs' dg =
       (if dg \<in> set dgs
        then Some \<lparr>all_child_device_groups = the (d2c dg),
                   all_active_child_firewalls = dd_get all_active dg,
                   entries = fetch_entries pc limit dg\<rparr>
        else objs dg)
     \<and> (dg \<in> set dgs \<longrightarrow> d2c dg \<noteq> None)"
proof (induction dgs arbitrary: objs)
  case Nil
  then show ?case by simp
next
  case (Cons a dgs)
  then show ?case
    by (auto split: option.splits)
qed

lemma exclusive_policies_lookup:
  "exclusive_policies objs parent dg pts m = Inr m' \<Longrightarrow>
     (t \<notin> set pts \<longrightarrow> m' t = m t) \<and>
     (t \<in> set pts \<longrightarrow>
        (\<exists>own. lookup_entries objs dg t = Inr own \<and>
           (case parent dg of
              None \<Rightarrow> m' t = Some own
            | Some parent_dg \<Rightarrow>
                (\<exists>parent_policies. lookup_entries objs parent_dg t = Inr parent_policies \<and>
                   m' t = Some (filter (\<lambda>entry. xml_get entry ''@uuid'' \<notin>
                            (\<lambda>entry. xml_get entry ''@uuid'') ` set parent_policies) own)))))"
proof (induction pts arbitrary: m)
  case Nil
  then show ?case by simp
next
  case (Cons a pts)
  show ?case
  proof (cases "t \<in> set pts")
    case True
    with Cons show ?thesis
      by (auto split: option.splits sum.splits simp: Let_def)
  next
    case False
    with Cons show ?thesis
      by (auto split: option.splits sum.splits simp: Let_def)
  qed
qed

lemma build_exclusive_objects_lookup:
  "build_exclusive_objects pc objs parent dgs excl = Inr excl' \<Longrightarrow>
     (dg \<notin> set dgs \<longrightarrow> excl' dg = excl dg) \<and>
     (dg \<in> set dgs \<longrightarrow>
        (\<exists>m. excl' dg = Some m \<and>
           exclusive_policies objs parent dg (SUPPORTED_POLICY_TYPES pc) Map.empty = Inr m))"
proof (induction dgs arbitrary: excl)
  case Nil
  then show ?case by simp
next
  case (Cons a dgs)
  show ?case
  proof (cases "dg \<in> set dgs")
    case True
    with Cons show ?thesis by (auto split: sum.splits)
  next
    case False
    with Cons show ?thesis by (auto split: sum.splits)
  qed
qed

lemma load_config_package_parts:
  assumes "load_config_package ext config key dg_arg limit verbose_arg no_api_arg xml_file = Inr pp"
  shows "\<exists>pano pc dgs_and_fws raw.
     config ''Panorama'' = Some pano \<and>
     load_sources ext pano key xml_file = Inr (pc, dgs_and_fws, raw) \<and>
     pan_config pp = pc \<and>
     device_groups_and_firewalls pp = dgs_and_fws \<and>
     device_group_hierarchy_parent pp = snd (get_device_groups_hierarchy pc) \<and>
     device_groups pp =
       (if truthy dg_arg then [the dg_arg] else get_device_groups pc @ [''shared'']) \<and>
     build_devicegroup_objects pc limit
       (squash_all_devicegroups ext (get_device_groups pc @ [''shared''])
          (fst (get_device_groups_hierarchy pc)))
       (all_active_firewalls_per_devicegroup
          (squash_all_devicegroups ext (get_device_groups pc @ [''shared''])
             (fst (get_device_groups_hierarchy pc))) raw)
       (get_device_groups pc @ [''shared'']) Map.empty = Inr (devicegroup_objects pp) \<and>
     build_exclusive_objects pc (devicegroup_objects pp) (snd (get_device_groups_hierarchy pc))
       (get_device_groups pc @ [''shared'']) Map.empty = Inr (devicegroup_exclusive_objects pp)"
  using assms
  by (auto simp: load_config_package_def Let_def split_beta split: option.splits sum.splits)

lemma ex_load:
  "load_config_package ex_external ex_settings ''key'' None None True False None = Inr ex_package"
  by (simp add: load_config_package_def ex_settings_def truthy_def load_sources_def ex_external_def
      ex_config_def active_firewalls_per_devicegroup_def all_active_firewalls_per_devicegroup_def
      dd_get_def fetch_entries_def slice_to_def lookup_entries_def ex_policies_def ex_objects_def
      ex_package_def xml_get_def rule1_def rule2_def rule3_def rule4_def Let_def)

lemma ex_package_scopes:
  "get_device_groups (pan_config ex_package) @ [''shared''] = [''A'', ''B'', ''shared'']"
  "SUPPORTED_POLICY_TYPES (pan_config ex_package) = [''SecurityPreRules'', ''SecurityPostRules'']"
  "SUPPORTED_OBJECT_TYPES (pan_config ex_package) = [''Addresses'', ''AddressGroups'']"
  "device_group_hierarchy_parent ex_package = [''A'' \<mapsto> ''shared'', ''B'' \<mapsto> ''A'']"
  by (simp_all add: ex_package_def ex_config_def)

lemma append_active_eq: "append_active raw cs acc = acc @ concat (map (dd_get raw) cs)"
  by (induction cs arbitrary: acc) simp_all

lemma dd_get_all_active:
  "d2c dg = Some y \<Longrightarrow>
     dd_get (all_active_firewalls_per_devicegroup d2c raw) dg = concat (map (dd_get raw) y)"
  by (simp add: dd_get_def all_active_firewalls_per_devicegroup_def append_active_eq)

lemma snapshot_objects:
  assumes "load_config_package ext config key dg_arg limit verbose_arg no_api_arg xml_file = Inr pp"
    and "dg \<in> set (get_device_groups (pan_config pp) @ [''shared''])"
  shows "\<exists>d. devicegroup_objects pp dg = Some d \<and> entries d = fetch_entries (pan_config pp) limit dg"
proof -
  from load_config_package_parts[OF assms(1)] obtain pano pc dgs_and_fws raw where
    pc: "pan_config pp = pc"
    and b: "build_devicegroup_objects pc limit
       (squash_all_devicegroups ext (get_device_groups pc @ [''shared''])
          (fst (get_device_groups_hierarchy pc)))
       (all_active_firewalls_per_devicegroup
          (squash_all_devicegroups ext (get_device_groups pc @ [''shared''])
             (fst (get_device_groups_hierarchy pc))) raw)
       (get_device_groups pc @ [''shared'']) Map.empty = Inr (devicegroup_objects pp)"
    by blast
  from build_devicegroup_objects_lookup[OF b, of dg] assms(2) pc show ?thesis
    by auto
qed

lemma snapshot_exclusive:
  assumes "load_config_package ext config key dg_arg limit verbose_arg no_api_arg xml_file = Inr pp"
    and "dg \<in> set (get_device_groups (pan_config pp) @ [''shared''])"
  shows "\<exists>m. devicegroup_exclusive_objects pp dg = Some m \<and>
           exclusive_policies (devicegroup_objects pp) (device_group_hierarchy_parent pp) dg
             (SUPPORTED_POLICY_TYPES (pan_config pp)) Map.empty = Inr m"
proof -
  from load_config_package_parts[OF assms(1)] obtain pc where
    pc: "pan_config pp = pc"
    and par: "device_group_hierarchy_parent pp = snd (get_device_groups_hierarchy pc)"
    and b: "build_exclusive_objects pc (devicegroup_objects pp) (snd (get_device_groups_hierarchy pc))
       (get_device_groups pc @ [''shared'']) Map.empty = Inr (devicegroup_exclusive_objects pp)"
    by blast
  from build_exclusive_objects_lookup[OF b, of dg] assms(2) pc par show ?thesis
    by auto
qed

lemma lookup_entries_Inr:
  "lookup_entries objs dg t = Inr xs \<longleftrightarrow> (\<exists>d. objs dg = Some d \<and> entries d t = Some xs)"
  by (auto simp: lookup_entries_def split: option.splits)

text \<open>
  C1, as the code has it. The exclusive collections are built for the policy categories
  only. In a snapshot that \<^verbatim>\<open>load_config_package\<close> returns, for every device group
  (the configured ones and \<^verbatim>\<open>shared\<close>) and every policy category, the exclusive
  entries are among the device group's entries of that category, and they are all of
  them when the device group has no parent. For any other key, an object category
  included, the exclusive dictionary of the device group has no entry.
\<close>

theorem exclusive_policies_subset:
  assumes "load_config_package ext config key dg_arg limit verbose_arg no_api_arg xml_file = Inr pp"
    and "dg \<in> set (get_device_groups (pan_config pp) @ [''shared''])"
  shows "\<exists>d m. devicegroup_objects pp dg = Some d \<and> devicegroup_exclusive_objects pp dg = Some m \<and>
     (\<forall>pt \<in> set (SUPPORTED_POLICY_TYPES (pan_config pp)).
        \<exists>al ex. entries d pt = Some al \<and> m pt = Some ex \<and> set ex \<subseteq> set al \<and>
          (device_group_hierarchy_parent pp dg = None \<longrightarrow> ex = al)) \<and>
     (\<forall>t. t \<notin> set (SUPPORTED_POLICY_TYPES (pan_config pp)) \<longrightarrow> m t = None)"
proof -
  from snapshot_objects[OF assms] obtain d where d: "devicegroup_objects pp dg = Some d" by blast
  from snapshot_exclusive[OF assms] obtain m where m: "devicegroup_exclusive_objects pp dg = Some m"
    and e: "exclusive_policies (devicegroup_objects pp) (device_group_hierarchy_parent pp) dg
             (SUPPORTED_POLICY_TYPES (pan_config pp)) Map.empty = Inr m" by blast
  have "\<exists>al ex. entries d pt = Some al \<and> m pt = Some ex \<and> set ex \<subseteq> set al \<and>
          (device_group_hierarchy_parent pp dg = None \<longrightarrow> ex = al)"
    if "pt \<in> set (SUPPORTED_POLICY_TYPES (pan_config pp))" for pt
    using exclusive_policies_lookup[OF e, of pt] that d
    by (auto simp: lookup_entries_Inr split: option.splits)
  moreover have "m t = None" if "t \<notin> set (SUPPORTED_POLICY_TYPES (pan_config pp))" for t
    using exclusive_policies_lookup[OF e, of t] that by simp
  ultimately show ?thesis using d m by blast
qed

theorem exclusive_policies_subset_witness:
  "(\<exists>d m. devicegroup_objects ex_package ''A'' = Some d \<and>
          devicegroup_exclusive_objects ex_package ''A'' = Some m \<and>
          entries d ''SecurityPreRules'' = Some [rule1, rule2, rule3] \<and>
          m ''SecurityPreRules'' = Some [rule2, rule3] \<and>
          m ''Addresses'' = None)
   \<and> (\<exists>d m. devicegroup_objects ex_package ''shared'' = Some d \<and>
          devicegroup_exclusive_objects ex_package ''shared'' = Some m \<and>
          device_group_hierarchy_parent ex_package ''shared'' = None \<and>
          entries d ''SecurityPreRules'' = Some [rule1] \<and>
          m ''SecurityPreRules'' = Some [rule1])"
  using exclusive_policies_subset [OF ex_load, of "''A''"]
    exclusive_policies_subset [OF ex_load, of "''shared''"]
  by (simp add: ex_package_def ex_config_def)

text \<open>
  C1 as stated fails for the object categories: in the snapshot of the example the
  root device group \<^verbatim>\<open>shared\<close> has two addresses, and its exclusive dictionary has no
  entry for \<^verbatim>\<open>Addresses\<close> at all, so exclusive is not equal to all there.
\<close>

theorem exclusive_missing_for_objects:
  "load_config_package ex_external ex_settings ''key'' None None True False None = Inr ex_package
   \<and> ''Addresses'' \<in> set (SUPPORTED_OBJECT_TYPES (pan_config ex_package))
   \<and> device_group_hierarchy_parent ex_package ''shared'' = None
   \<and> (\<exists>d. devicegroup_objects ex_package ''shared'' = Some d \<and>
          entries d ''Addresses'' = Some [addr_bad, addr_ok])
   \<and> (\<exists>m. devicegroup_exclusive_objects ex_package ''shared'' = Some m \<and>
          m ''Addresses'' = None)"
  by (simp add: ex_load ex_package_def ex_config_def)

text \<open>
  What the diff computes: for a device group with a parent and a policy category, the
  exclusive entries are the device group's entries, in their order, for which
  \<^verbatim>\<open>entry.get('@uuid')\<close> is not among the values of \<^verbatim>\<open>entry.get('@uuid')\<close> of the
  parent's entries; None is a value like any other.
\<close>

lemma exclusive_filter_by_uuid_key:
  assumes "load_config_package ext config key dg_arg limit verbose_arg no_api_arg xml_file = Inr pp"
    and "dg \<in> set (get_device_groups (pan_config pp) @ [''shared''])"
    and "pt \<in> set (SUPPORTED_POLICY_TYPES (pan_config pp))"
    and "device_group_hierarchy_parent pp dg = Some parent_dg"
  shows "\<exists>d m al ex pd pal.
     devicegroup_objects pp dg = Some d \<and> entries d pt = Some al \<and>
     devicegroup_objects pp parent_dg = Some pd \<and> entries pd pt = Some pal \<and>
     devicegroup_exclusive_objects pp dg = Some m \<and> m pt = Some ex \<and>
     ex = filter (\<lambda>entry. xml_get entry ''@uuid'' \<notin> (\<lambda>p. xml_get p ''@uuid'') ` set pal) al \<and>
     (\<forall>entry. entry \<in> set ex \<longleftrightarrow>
        entry \<in> set al \<and> xml_get entry ''@uuid'' \<notin> (\<lambda>p. xml_get p ''@uuid'') ` set pal)"
proof -
  from snapshot_exclusive[OF assms(1,2)] obtain m where m: "devicegroup_exclusive_objects pp dg = Some m"
    and e: "exclusive_policies (devicegroup_objects pp) (device_group_hierarchy_parent pp) dg
             (SUPPORTED_POLICY_TYPES (pan_config pp)) Map.empty = Inr m" by blast
  from exclusive_policies_lookup[OF e, of pt] assms(3,4) m show ?thesis
    by (auto simp: lookup_entries_Inr)
qed

text \<open>
  C8. For every device group of the snapshot, every object category holds exactly what
  \<^verbatim>\<open>get_devicegroup_object\<close> returns, whatever the limit. A policy category holds
  what \<^verbatim>\<open>get_devicegroup_policy\<close> returns when there is no limit, its first n entries
  for a limit n of at least 0, and in every case a prefix of it.
\<close>

theorem limit_truncates_policies_only:
  assumes "load_config_package ext config key dg_arg limit verbose_arg no_api_arg xml_file = Inr pp"
    and "dg \<in> set (get_device_groups (pan_config pp) @ [''shared''])"
  shows "\<exists>d. devicegroup_objects pp dg = Some d \<and>
     (\<forall>ot \<in> set (SUPPORTED_OBJECT_TYPES (pan_config pp)).
        entries d ot = Some (get_devicegroup_object (pan_config pp) ot
          (if dg = ''shared'' then ''shared'' else ''device-group'')
          (if dg = ''shared'' then None else Some dg))) \<and>
     (\<forall>pt \<in> set (SUPPORTED_POLICY_TYPES (pan_config pp)).
        pt \<notin> set (SUPPORTED_OBJECT_TYPES (pan_config pp)) \<longrightarrow>
        (limit = None \<longrightarrow>
           entries d pt = Some (get_devicegroup_policy (pan_config pp) pt
             (if dg = ''shared'' then ''shared'' else ''device-group'')
             (if dg = ''shared'' then None else Some dg))) \<and>
        (\<forall>n. limit = Some n \<and> 0 \<le> n \<longrightarrow>
           entries d pt = Some (take (nat n) (get_devicegroup_policy (pan_config pp) pt
             (if dg = ''shared'' then ''shared'' else ''device-group'')
             (if dg = ''shared'' then None else Some dg)))) \<and>
        (\<exists>k. entries d pt = Some (take k (get_devicegroup_policy (pan_config pp) pt
             (if dg = ''shared'' then ''shared'' else ''device-group'')
             (if dg = ''shared'' then None else Some dg)))))"
proof -
  from snapshot_objects[OF assms] obtain d where d: "devicegroup_objects pp dg = Some d"
    and en: "entries d = fetch_entries (pan_config pp) limit dg" by blast
  have sl: "\<exists>k. slice_to xs limit = take k xs" for xs :: "xml list"
  proof (cases limit)
    case None
    then have "slice_to xs limit = take (length xs) xs" by (simp add: slice_to_def)
    then show ?thesis ..
  next
    case (Some n)
    then show ?thesis by (auto simp: slice_to_def)
  qed
  show ?thesis
    using d sl by (auto simp: en fetch_entries_lookup slice_to_def)
qed

theorem limit_truncates_policies_only_witness:
  "\<exists>pp d. load_config_package ex_external ex_settings ''key'' None (Some 1) True False None = Inr pp
     \<and> devicegroup_objects pp ''A'' = Some d
     \<and> entries d ''SecurityPreRules'' = Some [rule1]
     \<and> entries d ''Addresses'' = Some [addr_two, addr_ok]"
proof -
  have "\<exists>pp. load_config_package ex_external ex_settings ''key'' None (Some 1) True False None = Inr pp
      \<and> pan_config pp = ex_config"
    by (simp add: load_config_package_def ex_settings_def truthy_def load_sources_def ex_external_def
      ex_config_def active_firewalls_per_devicegroup_def all_active_firewalls_per_devicegroup_def
      dd_get_def fetch_entries_def slice_to_def lookup_entries_def ex_policies_def ex_objects_def
      xml_get_def rule1_def rule2_def rule3_def rule4_def Let_def)
  then obtain pp where
    l: "load_config_package ex_external ex_settings ''key'' None (Some 1) True False None = Inr pp"
    and pc: "pan_config pp = ex_config" by blast
  have mem: "''A'' \<in> set (get_device_groups (pan_config pp) @ [''shared''])"
    by (simp add: pc ex_config_def)
  from limit_truncates_policies_only [OF l mem] obtain d where
    "devicegroup_objects pp ''A'' = Some d"
    "entries d ''SecurityPreRules'' = Some [rule1]"
    "entries d ''Addresses'' = Some [addr_two, addr_ok]"
    by (auto simp: pc ex_config_def ex_policies_def ex_objects_def)
  with l show ?thesis by blast
qed

text \<open>
  C6, as the code has it. The active firewalls of a device group are the concatenation,
  in the order of its descendant list, of the raw active-firewall lists of the
  descendants (a descendant without a raw list contributes nothing). As a set this is
  the union of the raw lists; nothing removes duplicates, so a firewall listed by
  several descendants appears once for each.
\<close>

theorem active_firewalls_concatenated:
  assumes "load_config_package ext config key dg_arg limit verbose_arg no_api_arg xml_file = Inr pp"
    and "dg \<in> set (get_device_groups (pan_config pp) @ [''shared''])"
  shows "\<exists>d pano pc dgs_and_fws raw.
     devicegroup_objects pp dg = Some d \<and>
     config ''Panorama'' = Some pano \<and>
     load_sources ext pano key xml_file = Inr (pc, dgs_and_fws, raw) \<and>
     squash_all_devicegroups ext (get_device_groups pc @ [''shared''])
       (fst (get_device_groups_hierarchy pc)) dg = Some (all_child_device_groups d) \<and>
     all_active_child_firewalls d = concat (map (dd_get raw) (all_child_device_groups d)) \<and>
     set (all_active_child_firewalls d) = (\<Union>c \<in> set (all_child_device_groups d). set (dd_get raw c))"
proof -
  from load_config_package_parts[OF assms(1)] obtain pano pc dgs_and_fws raw where
    pano: "config ''Panorama'' = Some pano"
    and src: "load_sources ext pano key xml_file = Inr (pc, dgs_and_fws, raw)"
    and pc: "pan_config pp = pc"
    and b: "build_devicegroup_objects pc limit
       (squash_all_devicegroups ext (get_device_groups pc @ [''shared''])
          (fst (get_device_groups_hierarchy pc)))
       (all_active_firewalls_per_devicegroup
          (squash_all_devicegroups ext (get_device_groups pc @ [''shared''])
             (fst (get_device_groups_hierarchy pc))) raw)
       (get_device_groups pc @ [''shared'']) Map.empty = Inr (devicegroup_objects pp)"
    by blast
  let ?d2c = "squash_all_devicegroups ext (get_device_groups pc @ [''shared''])
          (fst (get_device_groups_hierarchy pc))"
  from build_devicegroup_objects_lookup[OF b, of dg] assms(2) pc
  obtain y where y: "?d2c dg = Some y"
    and d: "devicegroup_objects pp dg =
      Some \<lparr>all_child_device_groups = y,
             all_active_child_firewalls =
               dd_get (all_active_firewalls_per_devicegroup ?d2c raw) dg,
             entries = fetch_entries pc limit dg\<rparr>"
    by auto
  have act: "dd_get (all_active_firewalls_per_devicegroup ?d2c raw) dg = concat (map (dd_get raw) y)"
    using y by (simp add: dd_get_all_active)
  have "set (concat (map (dd_get raw) y)) = (\<Union>c \<in> set y. set (dd_get raw c))"
    by simp
  with d y act pano src show ?thesis
    by simp
qed

theorem active_firewalls_concatenated_witness:
  "\<exists>d. devicegroup_objects ex_package ''shared'' = Some d \<and>
     all_child_device_groups d = [''A'', ''B'', ''shared''] \<and>
     all_active_child_firewalls d = [''fw1''] @ [''fw1'', ''fw2''] @ [] \<and>
     set (all_active_child_firewalls d) = {''fw1'', ''fw2''}"
  using active_firewalls_concatenated [OF ex_load, of "''shared''"]
  by (simp add: ex_package_def ex_config_def)

text \<open>
  C6 as stated fails: the firewall \<^verbatim>\<open>fw1\<close> is active in device group \<^verbatim>\<open>A\<close> and in
  its child \<^verbatim>\<open>B\<close>, and the list of \<^verbatim>\<open>A\<close> holds it twice.
\<close>

theorem active_firewalls_not_deduplicated:
  "load_config_package ex_external ex_settings ''key'' None None True False None = Inr ex_package
   \<and> (\<exists>d. devicegroup_objects ex_package ''A'' = Some d \<and>
        all_child_device_groups d = [''A'', ''B''] \<and>
        all_active_child_firewalls d = [''fw1'', ''fw1'', ''fw2''] \<and>
        \<not> distinct (all_active_child_firewalls d))"
  by (simp add: ex_load ex_package_def)

section \<open>Properties of the hostname validators\<close>

subsection \<open>Stage 1\<close>

lemma check_fqdns_eq:
  "check_fqdns ext prefixes dg entry entry_name nodes (bad, acc) = Inr (bad', out) \<Longrightarrow>
     out = acc @ map (address_finding dg entry entry_name)
           (filter (\<lambda>t. \<not> list_ex (startswith t) prefixes \<and> cached_dns_lookup ext t = None)
              (map (\<lambda>n. lower ext (the (elem_text n))) nodes))
     \<and> bad' = (if filter (\<lambda>t. \<not> list_ex (startswith t) prefixes \<and> cached_dns_lookup ext t = None)
                    (map (\<lambda>n. lower ext (the (elem_text n))) nodes) = []
               then bad else insert entry_name bad)"
proof (induction nodes arbitrary: bad acc)
  case Nil
  then show ?case by simp
next
  case (Cons n nodes)
  from Cons.prems obtain t where t: "elem_text n = Some t"
    by (cases "elem_text n") auto
  show ?case
  proof (cases "\<not> list_ex (startswith (lower ext t)) prefixes \<and> cached_dns_lookup ext (lower ext t) = None")
    case True
    with Cons.prems t have "check_fqdns ext prefixes dg entry entry_name nodes
        (insert entry_name bad, acc @ [address_finding dg entry entry_name (lower ext t)])
        = Inr (bad', out)"
      by (simp add: Let_def)
    from Cons.IH[OF this] True t show ?thesis
      by simp
  next
    case False
    with Cons.prems t have "check_fqdns ext prefixes dg entry entry_name nodes (bad, acc) = Inr (bad', out)"
      by (auto simp: Let_def split: option.splits)
    from Cons.IH[OF this] False t show ?thesis
      by auto
  qed
qed

lemma check_addresses_eq:
  "check_addresses ext prefixes dg es (bad, acc) = Inr (bad', out) \<Longrightarrow>
     out = acc @ concat (map (\<lambda>entry. map (address_finding dg entry (xml_get entry ''name''))
                                (unresolved_hostnames ext prefixes entry)) es)
     \<and> bad' = bad \<union> {xml_get entry ''name'' | entry.
                        entry \<in> set es \<and> unresolved_hostnames ext prefixes entry \<noteq> []}"
proof (induction es arbitrary: bad acc)
  case Nil
  then show ?case by simp
next
  case (Cons e es)
  from Cons.prems obtain bad1 acc1 where
    s1: "check_fqdns ext prefixes dg e (xml_get e ''name'') (findall e ''fqdn'') (bad, acc) = Inr (bad1, acc1)"
    and s2: "check_addresses ext prefixes dg es (bad1, acc1) = Inr (bad', out)"
    by (auto split: sum.splits)
  from check_fqdns_eq[OF s1] Cons.IH[OF s2] show ?case
    by (auto simp: unresolved_hostnames_def)
qed

lemma check_hostnames_eq:
  "check_hostnames ext prefixes objs dgs (bad, acc) = Inr (bad', out) \<Longrightarrow>
     out = acc @ concat (map (\<lambda>dg. concat (map (\<lambda>entry.
               map (address_finding dg entry (xml_get entry ''name''))
                 (unresolved_hostnames ext prefixes entry))
               (entries_of objs dg ''Addresses''))) dgs)
     \<and> bad' = bad \<union> {xml_get entry ''name'' | dg entry.
                        dg \<in> set dgs \<and> entry \<in> set (entries_of objs dg ''Addresses'') \<and>
                        unresolved_hostnames ext prefixes entry \<noteq> []}"
proof (induction dgs arbitrary: bad acc)
  case Nil
  then show ?case by simp
next
  case (Cons dg dgs)
  from Cons.prems obtain xs bad1 acc1 where
    l: "lookup_entries objs dg ''Addresses'' = Inr xs"
    and s1: "check_addresses ext prefixes dg xs (bad, acc) = Inr (bad1, acc1)"
    and s2: "check_hostnames ext prefixes objs dgs (bad1, acc1) = Inr (bad', out)"
    by (auto split: sum.splits)
  have e: "entries_of objs dg ''Addresses'' = xs"
    by (simp add: entries_of_def l)
  from check_addresses_eq[OF s1] Cons.IH[OF s2] have
    o: "out = (acc @ concat (map (\<lambda>entry. map (address_finding dg entry (xml_get entry ''name''))
                                (unresolved_hostnames ext prefixes entry)) xs)) @
          concat (map (\<lambda>dg. concat (map (\<lambda>entry.
               map (address_finding dg entry (xml_get entry ''name''))
                 (unresolved_hostnames ext prefixes entry))
               (entries_of objs dg ''Addresses''))) dgs)"
    and b: "bad' = (bad \<union> {xml_get entry ''name'' | entry.
                        entry \<in> set xs \<and> unresolved_hostnames ext prefixes entry \<noteq> []}) \<union>
              {xml_get entry ''name'' | dg entry.
                        dg \<in> set dgs \<and> entry \<in> set (entries_of objs dg ''Addresses'') \<and>
                        unresolved_hostnames ext prefixes entry \<noteq> []}"
    by simp_all
  have "{xml_get entry ''name'' | dg' entry.
           dg' \<in> set (dg # dgs) \<and> entry \<in> set (entries_of objs dg' ''Addresses'') \<and>
           unresolved_hostnames ext prefixes entry \<noteq> []} =
        {xml_get entry ''name'' | entry.
           entry \<in> set (entries_of objs dg ''Addresses'') \<and>
           unresolved_hostnames ext prefixes entry \<noteq> []} \<union>
        {xml_get entry ''name'' | dg' entry.
           dg' \<in> set dgs \<and> entry \<in> set (entries_of objs dg' ''Addresses'') \<and>
           unresolved_hostnames ext prefixes entry \<noteq> []}"
    by auto
  with o b show ?case
    by (simp add: e Un_assoc)
qed

lemma address_finding_name [simp]:
  "data (address_finding dg entry n t) = entry"
  "device_group (address_finding dg entry n t) = dg"
  "entry_type (address_finding dg entry n t) = ''Addresses''"
  by (simp_all add: address_finding_def)

text \<open>
  C5, as the code has it. Stage 1 appends one finding inside the loop over the
  \<^verbatim>\<open>fqdn\<close> children: its findings are, device group after device group and address
  after address, one finding for each hostname field of the address that is not ignored
  and does not resolve, so an address with k such fields is the subject of k findings.
  What the set records is the name of the address (\<^verbatim>\<open>entry.get('name')\<close>), not its
  identity: the set holds the names of the addresses with at least one such field, and
  these are exactly the names of the entries of the findings, from which Stage 2
  rebuilds the set.
\<close>

theorem one_finding_per_unresolved_hostname:
  assumes "find_badhostname ext profilepackage = Inr out"
  shows "out = concat (map (\<lambda>dg. concat (map (\<lambda>entry.
               map (address_finding dg entry (xml_get entry ''name''))
                 (unresolved_hostnames ext (map (lower ext) (ignored_dns_prefixes profilepackage)) entry))
               (entries_of (devicegroup_objects profilepackage) dg ''Addresses'')))
             (device_groups profilepackage))
     \<and> (\<exists>bad. check_hostnames ext (map (lower ext) (ignored_dns_prefixes profilepackage))
                 (devicegroup_objects profilepackage) (device_groups profilepackage) ({}, [])
               = Inr (bad, out)
            \<and> bad = {xml_get entry ''name'' | dg entry.
                 dg \<in> set (device_groups profilepackage) \<and>
                 entry \<in> set (entries_of (devicegroup_objects profilepackage) dg ''Addresses'') \<and>
                 unresolved_hostnames ext (map (lower ext) (ignored_dns_prefixes profilepackage)) entry \<noteq> []}
            \<and> bad = (\<lambda>f. xml_get (data f) ''name'') ` set out)"
proof -
  from assms obtain bad where
    c: "check_hostnames ext (map (lower ext) (ignored_dns_prefixes profilepackage))
                 (devicegroup_objects profilepackage) (device_groups profilepackage) ({}, [])
               = Inr (bad, out)"
    by (auto simp: find_badhostname_def split: sum.splits)
  note eq = check_hostnames_eq[OF c]
  from eq have out: "out = concat (map (\<lambda>dg. concat (map (\<lambda>entry.
               map (address_finding dg entry (xml_get entry ''name''))
                 (unresolved_hostnames ext (map (lower ext) (ignored_dns_prefixes profilepackage)) entry))
               (entries_of (devicegroup_objects profilepackage) dg ''Addresses'')))
             (device_groups profilepackage))"
    by simp
  from eq have bad: "bad = {xml_get entry ''name'' | dg entry.
                 dg \<in> set (device_groups profilepackage) \<and>
                 entry \<in> set (entries_of (devicegroup_objects profilepackage) dg ''Addresses'') \<and>
                 unresolved_hostnames ext (map (lower ext) (ignored_dns_prefixes profilepackage)) entry \<noteq> []}"
    by simp
  have mem: "f \<in> set out \<longleftrightarrow>
      (\<exists>dg entry t. dg \<in> set (device_groups profilepackage) \<and>
         entry \<in> set (entries_of (devicegroup_objects profilepackage) dg ''Addresses'') \<and>
         t \<in> set (unresolved_hostnames ext (map (lower ext) (ignored_dns_prefixes profilepackage)) entry) \<and>
         f = address_finding dg entry (xml_get entry ''name'') t)" for f
    by (subst out) auto
  have "bad = (\<lambda>f. xml_get (data f) ''name'') ` set out"
  proof (intro set_eqI iffI)
    fix x
    assume "x \<in> bad"
    then obtain dg entry where d: "dg \<in> set (device_groups profilepackage)"
      "entry \<in> set (entries_of (devicegroup_objects profilepackage) dg ''Addresses'')"
      "unresolved_hostnames ext (map (lower ext) (ignored_dns_prefixes profilepackage)) entry \<noteq> []"
      "x = xml_get entry ''name''"
      unfolding bad by blast
    from d(3) obtain t where
      "t \<in> set (unresolved_hostnames ext (map (lower ext) (ignored_dns_prefixes profilepackage)) entry)"
      by (cases "unresolved_hostnames ext (map (lower ext) (ignored_dns_prefixes profilepackage)) entry") auto
    with d have "address_finding dg entry (xml_get entry ''name'') t \<in> set out"
      using mem by blast
    then have "xml_get (data (address_finding dg entry (xml_get entry ''name'') t)) ''name''
        \<in> (\<lambda>f. xml_get (data f) ''name'') ` set out"
      by (rule imageI)
    with d(4) show "x \<in> (\<lambda>f. xml_get (data f) ''name'') ` set out"
      by simp
  next
    fix x
    assume "x \<in> (\<lambda>f. xml_get (data f) ''name'') ` set out"
    then obtain f where f: "f \<in> set out" "x = xml_get (data f) ''name''" by blast
    from f(1) obtain dg entry t where d: "dg \<in> set (device_groups profilepackage)"
      "entry \<in> set (entries_of (devicegroup_objects profilepackage) dg ''Addresses'')"
      "t \<in> set (unresolved_hostnames ext (map (lower ext) (ignored_dns_prefixes profilepackage)) entry)"
      "f = address_finding dg entry (xml_get entry ''name'') t"
      using mem by blast
    from d(3) have "unresolved_hostnames ext (map (lower ext) (ignored_dns_prefixes profilepackage)) entry \<noteq> []"
      by auto
    with d f(2) show "x \<in> bad"
      unfolding bad by auto
  qed
  with c out bad show ?thesis by blast
qed

lemma ex_stage1:
  "find_badhostname ex_external ex_package =
     Inr [address_finding ''A'' addr_two (Some ''two.example'') ''a.invalid'',
          address_finding ''A'' addr_two (Some ''two.example'') ''b.invalid'',
          address_finding ''shared'' addr_bad (Some ''bad.example'') ''bad.example.com'']"
  by (simp add: find_badhostname_def ex_package_def ex_external_def lookup_entries_def
      addr_two_def addr_bad_def addr_ok_def findall_def xml_get_def Let_def)

theorem one_finding_per_unresolved_hostname_witness:
  "\<exists>bad. check_hostnames ex_external [''pc-'', ''iphone''] (devicegroup_objects ex_package)
            (device_groups ex_package) ({}, []) =
          Inr (bad, [address_finding ''A'' addr_two (Some ''two.example'') ''a.invalid'',
                     address_finding ''A'' addr_two (Some ''two.example'') ''b.invalid'',
                     address_finding ''shared'' addr_bad (Some ''bad.example'') ''bad.example.com''])
        \<and> bad = {Some ''two.example'', Some ''bad.example''}"
proof -
  from one_finding_per_unresolved_hostname [OF ex_stage1] obtain bad where
    c: "check_hostnames ex_external (map (lower ex_external) (ignored_dns_prefixes ex_package))
          (devicegroup_objects ex_package) (device_groups ex_package) ({}, []) =
        Inr (bad, [address_finding ''A'' addr_two (Some ''two.example'') ''a.invalid'',
                   address_finding ''A'' addr_two (Some ''two.example'') ''b.invalid'',
                   address_finding ''shared'' addr_bad (Some ''bad.example'') ''bad.example.com''])"
    and b: "bad = (\<lambda>f. xml_get (data f) ''name'') `
              set [address_finding ''A'' addr_two (Some ''two.example'') ''a.invalid'',
                   address_finding ''A'' addr_two (Some ''two.example'') ''b.invalid'',
                   address_finding ''shared'' addr_bad (Some ''bad.example'') ''bad.example.com'']"
    by blast
  have p: "map (lower ex_external) (ignored_dns_prefixes ex_package) = [''pc-'', ''iphone'']"
    by (simp add: ex_external_def ex_package_def)
  have "bad = {Some ''two.example'', Some ''bad.example''}"
    unfolding b by (simp add: xml_get_def addr_two_def addr_bad_def)
  with c p show ?thesis by simp
qed

text \<open>
  C5 as stated fails: the address \<open>addr_two\<close> of device group \<^verbatim>\<open>A\<close> has two
  \<^verbatim>\<open>fqdn\<close> children that do not resolve, and Stage 1 emits two findings for this one
  pair of device group and entry.
\<close>

theorem two_findings_for_one_address:
  "length (findall addr_two ''fqdn'') = 2 \<and>
   (\<exists>out. find_badhostname ex_external ex_package = Inr out \<and>
      length (filter (\<lambda>f. device_group f = ''A'' \<and> data f = addr_two) out) = 2)"
  by (simp add: ex_stage1 addr_two_def addr_bad_def findall_def)

subsection \<open>Stage 2\<close>

lemma check_members_new:
  "check_members ext bad dg rt e ms acc = Inr out \<Longrightarrow>
     \<exists>new. out = acc @ new \<and>
       (\<forall>f \<in> set new. data f = e \<and> device_group f = dg \<and> entry_type f = rt)"
proof (induction ms arbitrary: acc)
  case Nil
  then show ?case by simp
next
  case (Cons m ms)
  obtain mem dir where m: "m = (mem, dir)" by (cases m)
  show ?case
  proof (cases "bad \<inter> mem \<noteq> {}")
    case True
    with Cons.prems m obtain shown where
      "check_members ext bad dg rt e ms
         (acc @ [\<lparr>data = e, finding_text = rule_usage_text dg rt (xml_get e ''name'') dir shown,
                  device_group = dg, entry_type = rt\<rparr>]) = Inr out"
      by (auto simp: Let_def split: sum.splits)
    from Cons.IH[OF this] show ?thesis by auto
  next
    case False
    with Cons.prems m have "check_members ext bad dg rt e ms acc = Inr out"
      by (simp add: Let_def)
    from Cons.IH[OF this] show ?thesis .
  qed
qed

lemma check_rules_new:
  "check_rules ext bad dg rt es acc = Inr out \<Longrightarrow>
     \<exists>new. out = acc @ new \<and>
       (\<forall>f \<in> set new. data f \<in> set es \<and> \<not> is_disabled (data f) \<and>
          device_group f = dg \<and> entry_type f = rt)"
proof (induction es arbitrary: acc)
  case Nil
  then show ?case by simp
next
  case (Cons e es)
  show ?case
  proof (cases "is_disabled e")
    case True
    with Cons.prems have "check_rules ext bad dg rt es acc = Inr out" by simp
    from Cons.IH[OF this] show ?thesis by auto
  next
    case False
    with Cons.prems obtain acc1 where
      s1: "check_members ext bad dg rt e
             [(set (map elem_text (findall2 e ''source'' ''member'')), ''Source''),
              (set (map elem_text (findall2 e ''destination'' ''member'')), ''Dest'')] acc = Inr acc1"
      and s2: "check_rules ext bad dg rt es acc1 = Inr out"
      by (auto simp: Let_def split: sum.splits)
    from check_members_new[OF s1] obtain n1 where
      n1: "acc1 = acc @ n1" "\<forall>f \<in> set n1. data f = e \<and> device_group f = dg \<and> entry_type f = rt"
      by blast
    from Cons.IH[OF s2] obtain n2 where
      n2: "out = acc1 @ n2" "\<forall>f \<in> set n2. data f \<in> set es \<and> \<not> is_disabled (data f) \<and>
          device_group f = dg \<and> entry_type f = rt"
      by blast
    have "out = acc @ (n1 @ n2)" using n1(1) n2(1) by simp
    moreover have "\<forall>f \<in> set (n1 @ n2). data f \<in> set (e # es) \<and> \<not> is_disabled (data f) \<and>
          device_group f = dg \<and> entry_type f = rt"
      using n1(2) n2(2) False by auto
    ultimately show ?thesis by blast
  qed
qed

lemma check_ruletypes_new:
  "check_ruletypes ext bad excl dg rts acc = Inr out \<Longrightarrow>
     (\<forall>rt \<in> set rts. \<exists>xs. lookup_exclusive excl dg rt = Inr xs) \<and>
     (\<exists>new. out = acc @ new \<and>
       (\<forall>f \<in> set new. entry_type f \<in> set rts \<and> device_group f = dg \<and>
          data f \<in> set (exclusive_of excl dg (entry_type f)) \<and> \<not> is_disabled (data f)))"
proof (induction rts arbitrary: acc)
  case Nil
  then show ?case by simp
next
  case (Cons rt rts)
  from Cons.prems obtain rules acc1 where
    l: "lookup_exclusive excl dg rt = Inr rules"
    and s1: "check_rules ext bad dg rt rules acc = Inr acc1"
    and s2: "check_ruletypes ext bad excl dg rts acc1 = Inr out"
    by (auto split: sum.splits)
  have ex: "exclusive_of excl dg rt = rules" by (simp add: exclusive_of_def l)
  from check_rules_new[OF s1] obtain n1 where
    n1: "acc1 = acc @ n1" "\<forall>f \<in> set n1. data f \<in> set rules \<and> \<not> is_disabled (data f) \<and>
          device_group f = dg \<and> entry_type f = rt"
    by blast
  from Cons.IH[OF s2] obtain n2 where
    lk: "\<forall>rt \<in> set rts. \<exists>xs. lookup_exclusive excl dg rt = Inr xs"
    and n2: "out = acc1 @ n2" "\<forall>f \<in> set n2. entry_type f \<in> set rts \<and> device_group f = dg \<and>
          data f \<in> set (exclusive_of excl dg (entry_type f)) \<and> \<not> is_disabled (data f)"
    by blast
  have "out = acc @ (n1 @ n2)" using n1(1) n2(1) by simp
  moreover have "\<forall>f \<in> set (n1 @ n2). entry_type f \<in> set (rt # rts) \<and> device_group f = dg \<and>
          data f \<in> set (exclusive_of excl dg (entry_type f)) \<and> \<not> is_disabled (data f)"
    using n1(2) n2(2) ex by auto
  ultimately show ?case using l lk by auto
qed

lemma check_rule_usage_new:
  "check_rule_usage ext bad excl dgs acc = Inr out \<Longrightarrow>
     (\<forall>dg \<in> set dgs. \<forall>rt \<in> {''SecurityPreRules'', ''SecurityPostRules''}.
        \<exists>xs. lookup_exclusive excl dg rt = Inr xs) \<and>
     (\<exists>new. out = acc @ new \<and>
       (\<forall>f \<in> set new. entry_type f \<in> {''SecurityPreRules'', ''SecurityPostRules''} \<and>
          device_group f \<in> set dgs \<and>
          data f \<in> set (exclusive_of excl (device_group f) (entry_type f)) \<and>
          \<not> is_disabled (data f)))"
proof (induction dgs arbitrary: acc)
  case Nil
  then show ?case by simp
next
  case (Cons dg dgs)
  from Cons.prems obtain acc1 where
    s1: "check_ruletypes ext bad excl dg [''SecurityPreRules'', ''SecurityPostRules''] acc = Inr acc1"
    and s2: "check_rule_usage ext bad excl dgs acc1 = Inr out"
    by (auto split: sum.splits)
  from check_ruletypes_new[OF s1] obtain n1 where
    l1: "\<forall>rt \<in> set [''SecurityPreRules'', ''SecurityPostRules'']. \<exists>xs. lookup_exclusive excl dg rt = Inr xs"
    and n1: "acc1 = acc @ n1" "\<forall>f \<in> set n1. entry_type f \<in> set [''SecurityPreRules'', ''SecurityPostRules''] \<and>
          device_group f = dg \<and>
          data f \<in> set (exclusive_of excl dg (entry_type f)) \<and> \<not> is_disabled (data f)"
    by blast
  from Cons.IH[OF s2] obtain n2 where
    l2: "\<forall>dg \<in> set dgs. \<forall>rt \<in> {''SecurityPreRules'', ''SecurityPostRules''}.
        \<exists>xs. lookup_exclusive excl dg rt = Inr xs"
    and n2: "out = acc1 @ n2" "\<forall>f \<in> set n2. entry_type f \<in> {''SecurityPreRules'', ''SecurityPostRules''} \<and>
          device_group f \<in> set dgs \<and>
          data f \<in> set (exclusive_of excl (device_group f) (entry_type f)) \<and>
          \<not> is_disabled (data f)"
    by blast
  have "out = acc @ (n1 @ n2)" using n1(1) n2(1) by simp
  moreover have "\<forall>f \<in> set (n1 @ n2). entry_type f \<in> {''SecurityPreRules'', ''SecurityPostRules''} \<and>
          device_group f \<in> set (dg # dgs) \<and>
          data f \<in> set (exclusive_of excl (device_group f) (entry_type f)) \<and>
          \<not> is_disabled (data f)"
    using n1(2) n2(2) by auto
  moreover have "\<forall>dg' \<in> set (dg # dgs). \<forall>rt \<in> {''SecurityPreRules'', ''SecurityPostRules''}.
        \<exists>xs. lookup_exclusive excl dg' rt = Inr xs"
    using l1 l2 by auto
  ultimately show ?case by blast
qed

lemma check_address_groups_new:
  "check_address_groups ext bad dg es acc = Inr out \<Longrightarrow>
     \<exists>new. out = acc @ new \<and>
       (\<forall>f \<in> set new. data f \<in> set es \<and> device_group f = dg \<and> entry_type f = ''AddressGroups'')"
proof (induction es arbitrary: acc)
  case Nil
  then show ?case by simp
next
  case (Cons e es)
  show ?case
  proof (cases "bad \<inter> set (map elem_text (findall2 e ''static'' ''member'')) \<noteq> {}")
    case True
    with Cons.prems obtain shown_text where
      "check_address_groups ext bad dg es
         (acc @ [\<lparr>data = e, finding_text = shown_text, device_group = dg,
                  entry_type = ''AddressGroups''\<rparr>]) = Inr out"
      by (auto simp: Let_def split: sum.splits)
    from Cons.IH[OF this] show ?thesis by auto
  next
    case False
    with Cons.prems have "check_address_groups ext bad dg es acc = Inr out"
      by (simp add: Let_def)
    from Cons.IH[OF this] show ?thesis by auto
  qed
qed

lemma check_group_usage_new:
  "check_group_usage ext bad objs dgs acc = Inr out \<Longrightarrow>
     \<exists>new. out = acc @ new \<and>
       (\<forall>f \<in> set new. entry_type f = ''AddressGroups'' \<and> device_group f \<in> set dgs \<and>
          data f \<in> set (entries_of objs (device_group f) ''AddressGroups''))"
proof (induction dgs arbitrary: acc)
  case Nil
  then show ?case by simp
next
  case (Cons dg dgs)
  from Cons.prems obtain groups acc1 where
    l: "lookup_entries objs dg ''AddressGroups'' = Inr groups"
    and s1: "check_address_groups ext bad dg groups acc = Inr acc1"
    and s2: "check_group_usage ext bad objs dgs acc1 = Inr out"
    by (auto split: sum.splits)
  have e: "entries_of objs dg ''AddressGroups'' = groups" by (simp add: entries_of_def l)
  from check_address_groups_new[OF s1] obtain n1 where
    n1: "acc1 = acc @ n1" "\<forall>f \<in> set n1. data f \<in> set groups \<and> device_group f = dg \<and>
           entry_type f = ''AddressGroups''"
    by blast
  from Cons.IH[OF s2] obtain n2 where
    n2: "out = acc1 @ n2" "\<forall>f \<in> set n2. entry_type f = ''AddressGroups'' \<and> device_group f \<in> set dgs \<and>
          data f \<in> set (entries_of objs (device_group f) ''AddressGroups'')"
    by blast
  have "out = acc @ (n1 @ n2)" using n1(1) n2(1) by simp
  moreover have "\<forall>f \<in> set (n1 @ n2). entry_type f = ''AddressGroups'' \<and> device_group f \<in> set (dg # dgs) \<and>
          data f \<in> set (entries_of objs (device_group f) ''AddressGroups'')"
    using n1(2) n2(2) e by auto
  ultimately show ?case by blast
qed

lemma find_badhostnameusage_parts:
  assumes "find_badhostnameusage ext pp = Inr out"
  shows "\<exists>results groups.
     find_badhostname ext pp = Inr results \<and>
     check_group_usage ext (set (map (\<lambda>entry. xml_get (data entry) ''name'') results))
       (devicegroup_objects pp) (device_groups pp) [] = Inr groups \<and>
     check_rule_usage ext (set (map (\<lambda>entry. xml_get (data entry) ''name'') results))
       (devicegroup_exclusive_objects pp) (device_groups pp) groups = Inr out"
  using assms by (auto simp: find_badhostnameusage_def Let_def split: sum.splits)

lemma ex_bad_names:
  "set (map (\<lambda>entry. xml_get (data entry) ''name'')
     [address_finding ''A'' addr_two (Some ''two.example'') ''a.invalid'',
      address_finding ''A'' addr_two (Some ''two.example'') ''b.invalid'',
      address_finding ''shared'' addr_bad (Some ''bad.example'') ''bad.example.com''])
   = {Some ''two.example'', Some ''bad.example''}"
  by (simp add: xml_get_def addr_two_def addr_bad_def)

lemma ex_stage2:
  "\<exists>out. find_badhostnameusage ex_external ex_package = Inr out \<and>
     map data out = [group1, rule3, rule4, rule4, rule1] \<and>
     map device_group out = [''shared'', ''A'', ''B'', ''B'', ''shared''] \<and>
     map entry_type out = [''AddressGroups'', ''SecurityPreRules'', ''SecurityPreRules'',
        ''SecurityPreRules'', ''SecurityPreRules'']"
  unfolding find_badhostnameusage_def ex_stage1 sum.case Let_def ex_bad_names
  by (simp add: ex_package_def ex_external_def lookup_entries_def lookup_exclusive_def
      is_disabled_def find_child_def findall_def findall2_def member_def
      group1_def rule1_def rule2_def rule3_def rule4_def Let_def)

text \<open>
  C4. No finding of Stage 2 about a security rule (a finding whose category is one of
  the two rule bases) has a disabled rule as its entry: a rule whose \<^verbatim>\<open>disabled\<close>
  child reads \<^verbatim>\<open>yes\<close> is skipped before its source and destination members are
  looked at, so this holds whatever they reference.
\<close>

theorem disabled_rule_never_reported:
  assumes "find_badhostnameusage ext profilepackage = Inr out"
  shows "\<forall>f \<in> set out.
     entry_type f \<in> {''SecurityPreRules'', ''SecurityPostRules''} \<longrightarrow> \<not> is_disabled (data f)"
proof -
  from find_badhostnameusage_parts[OF assms] obtain bad groups where
    g: "check_group_usage ext bad (devicegroup_objects profilepackage)
          (device_groups profilepackage) [] = Inr groups"
    and r: "check_rule_usage ext bad (devicegroup_exclusive_objects profilepackage)
          (device_groups profilepackage) groups = Inr out"
    by blast
  from check_group_usage_new[OF g] have
    "\<forall>f \<in> set groups. entry_type f = ''AddressGroups''" by auto
  moreover from check_rule_usage_new[OF r] obtain new where
    "out = groups @ new" "\<forall>f \<in> set new. \<not> is_disabled (data f)" by blast
  ultimately show ?thesis by auto
qed

theorem disabled_rule_never_reported_witness:
  "is_disabled rule2
   \<and> Some ''bad.example'' \<in> set (map elem_text (findall2 rule2 ''source'' ''member''))
   \<and> (\<exists>m. devicegroup_exclusive_objects ex_package ''A'' = Some m \<and>
          m ''SecurityPreRules'' = Some [rule2, rule3])
   \<and> (\<exists>out. find_badhostnameusage ex_external ex_package = Inr out \<and>
          rule3 \<in> data ` set out \<and>
          \<not> (\<exists>f \<in> set out.
                entry_type f \<in> {''SecurityPreRules'', ''SecurityPostRules''} \<and> data f = rule2))"
proof -
  from ex_stage2 obtain out where run: "find_badhostnameusage ex_external ex_package = Inr out"
    and d: "map data out = [group1, rule3, rule4, rule4, rule1]" by auto
  have dis: "is_disabled rule2"
    by (simp add: is_disabled_def find_child_def findall_def rule2_def)
  from disabled_rule_never_reported [OF run] dis
  have no: "\<not> (\<exists>f \<in> set out.
                entry_type f \<in> {''SecurityPreRules'', ''SecurityPostRules''} \<and> data f = rule2)"
    by auto
  have "data ` set out = set (map data out)" by simp
  then have r3: "rule3 \<in> data ` set out" by (simp only: d) simp
  have src: "Some ''bad.example'' \<in> set (map elem_text (findall2 rule2 ''source'' ''member''))"
    by (simp add: findall2_def findall_def rule2_def member_def)
  have ex: "\<exists>m. devicegroup_exclusive_objects ex_package ''A'' = Some m \<and>
          m ''SecurityPreRules'' = Some [rule2, rule3]"
    by (simp add: ex_package_def)
  from dis src ex run r3 no show ?thesis by blast
qed

lemma exclusive_origin:
  assumes "load_config_package ext config key dg_arg limit verbose_arg no_api_arg xml_file = Inr pp"
    and "lookup_exclusive (devicegroup_exclusive_objects pp) dg rt = Inr ex"
  shows "\<exists>al. lookup_entries (devicegroup_objects pp) dg rt = Inr al \<and>
     (case device_group_hierarchy_parent pp dg of
        None \<Rightarrow> ex = al
      | Some p \<Rightarrow>
          (\<exists>pal. lookup_entries (devicegroup_objects pp) p rt = Inr pal \<and>
             ex = filter (\<lambda>entry. xml_get entry ''@uuid'' \<notin>
                    (\<lambda>q. xml_get q ''@uuid'') ` set pal) al))"
proof -
  from assms(2) obtain m where m: "devicegroup_exclusive_objects pp dg = Some m"
    and mrt: "m rt = Some ex"
    by (auto simp: lookup_exclusive_def split: option.splits)
  from load_config_package_parts[OF assms(1)] obtain pc where
    pc: "pan_config pp = pc"
    and par: "device_group_hierarchy_parent pp = snd (get_device_groups_hierarchy pc)"
    and b: "build_exclusive_objects pc (devicegroup_objects pp) (snd (get_device_groups_hierarchy pc))
       (get_device_groups pc @ [''shared'']) Map.empty = Inr (devicegroup_exclusive_objects pp)"
    by blast
  from build_exclusive_objects_lookup[OF b, of dg] m have
    e: "exclusive_policies (devicegroup_objects pp) (device_group_hierarchy_parent pp) dg
          (SUPPORTED_POLICY_TYPES pc) Map.empty = Inr m"
    by (cases "dg \<in> set (get_device_groups pc @ [''shared''])") (auto simp: par)
  from exclusive_policies_lookup[OF e, of rt] mrt show ?thesis
    by (cases "rt \<in> set (SUPPORTED_POLICY_TYPES pc)") (auto split: option.splits)
qed

subsection \<open>The example with parsed entries\<close>

lemma parsed_load:
  "load_config_package parsed_external ex_settings ''key'' None None True False None
     = Inr parsed_package"
  by (simp add: load_config_package_def ex_settings_def truthy_def load_sources_def
      parsed_external_def parsed_config_def active_firewalls_per_devicegroup_def
      all_active_firewalls_per_devicegroup_def dd_get_def fetch_entries_def slice_to_def
      lookup_entries_def parsed_policies_def parsed_objects_def parsed_package_def xml_get_def
      parsed_rule1_def parsed_rule5_def Let_def)




subsection \<open>What Stage 2 reports, and about which entries\<close>








subsection \<open>The exclusive entries of a parsed configuration\<close>

lemma filter_without_uuid_key:
  assumes "\<forall>e \<in> set al. xml_get e ''@uuid'' = None"
    and "\<forall>q \<in> set pal. xml_get q ''@uuid'' = None"
  shows "filter (\<lambda>entry. xml_get entry ''@uuid'' \<notin> (\<lambda>q. xml_get q ''@uuid'') ` set pal) al
           = (if pal = [] then al else [])"
proof (cases "pal = []")
  case True
  then show ?thesis by simp
next
  case False
  then obtain q where "q \<in> set pal" by (cases pal) auto
  with assms(2) have "None \<in> (\<lambda>q. xml_get q ''@uuid'') ` set pal" by force
  with assms(1) have "filter (\<lambda>entry. xml_get entry ''@uuid'' \<notin>
                    (\<lambda>q. xml_get q ''@uuid'') ` set pal) al = []"
    by (simp add: filter_empty_conv)
  with False show ?thesis by simp
qed

lemma exclusive_without_uuid_key:
  assumes load: "load_config_package ext config key dg_arg limit verbose_arg no_api_arg xml_file
                   = Inr pp"
    and look: "lookup_exclusive (devicegroup_exclusive_objects pp) dg rt = Inr ex"
    and par: "device_group_hierarchy_parent pp dg = Some parent_dg"
    and none: "\<forall>e \<in> set (entries_of (devicegroup_objects pp) dg rt) \<union>
                    set (entries_of (devicegroup_objects pp) parent_dg rt).
                 xml_get e ''@uuid'' = None"
  shows "ex = (if entries_of (devicegroup_objects pp) parent_dg rt = []
               then entries_of (devicegroup_objects pp) dg rt else [])"
proof -
  from exclusive_origin[OF load look] par obtain al pal where
    al: "lookup_entries (devicegroup_objects pp) dg rt = Inr al"
    and pal: "lookup_entries (devicegroup_objects pp) parent_dg rt = Inr pal"
    and ex: "ex = filter (\<lambda>entry. xml_get entry ''@uuid'' \<notin>
                    (\<lambda>q. xml_get q ''@uuid'') ` set pal) al"
    by auto
  have e1: "entries_of (devicegroup_objects pp) dg rt = al"
    and e2: "entries_of (devicegroup_objects pp) parent_dg rt = pal"
    by (simp_all add: entries_of_def al pal)
  from none have n1: "\<forall>e \<in> set al. xml_get e ''@uuid'' = None"
    and n2: "\<forall>q \<in> set pal. xml_get q ''@uuid'' = None"
    by (simp_all add: e1 e2)
  show ?thesis
    unfolding ex e1 e2 by (rule filter_without_uuid_key[OF n1 n2])
qed

text \<open>
  C7. The diff does not read the identity of an entry. It reads
  \<^verbatim>\<open>entry.get('@uuid')\<close>; an entry of an exported configuration carries its identity
  in the attribute \<^verbatim>\<open>uuid\<close>, and no attribute of a parsed element has a name that
  starts with \<^verbatim>\<open>@\<close>, so the value read is None for every entry. For a device group
  with a parent and a policy category whose entries, in the device group and in its
  parent, have no attribute \<^verbatim>\<open>@uuid\<close>, the exclusive entries are all the device
  group's entries when the parent has none, and none at all as soon as the parent has
  one entry: an entry of the child whose identity differs from every identity in the
  parent is not exclusive.
\<close>

theorem uuid_diff_drops_parsed_entries:
  assumes "load_config_package ext config key dg_arg limit verbose_arg no_api_arg xml_file = Inr pp"
    and "dg \<in> set (get_device_groups (pan_config pp) @ [''shared''])"
    and "pt \<in> set (SUPPORTED_POLICY_TYPES (pan_config pp))"
    and "device_group_hierarchy_parent pp dg = Some parent_dg"
    and "\<forall>e \<in> set (entries_of (devicegroup_objects pp) dg pt) \<union>
                set (entries_of (devicegroup_objects pp) parent_dg pt).
           xml_get e ''@uuid'' = None"
  shows "\<exists>m. devicegroup_exclusive_objects pp dg = Some m \<and>
     m pt = Some (if entries_of (devicegroup_objects pp) parent_dg pt = []
                  then entries_of (devicegroup_objects pp) dg pt else [])"
proof -
  from exclusive_filter_by_uuid_key[OF assms(1,2,3,4)] obtain m ex where
    m: "devicegroup_exclusive_objects pp dg = Some m" and e: "m pt = Some ex"
    by blast
  then have "lookup_exclusive (devicegroup_exclusive_objects pp) dg pt = Inr ex"
    by (simp add: lookup_exclusive_def)
  from exclusive_without_uuid_key[OF assms(1) this assms(4,5)] m e show ?thesis
    by simp
qed

text \<open>
  In the example \<^verbatim>\<open>shared\<close> declares the rule \<^verbatim>\<open>r1\<close> with the \<^verbatim>\<open>uuid\<close> 1 and its
  child \<^verbatim>\<open>A\<close> the rule \<^verbatim>\<open>r5\<close> with the \<^verbatim>\<open>uuid\<close> 5; the exclusive pre-rules of
  \<^verbatim>\<open>A\<close> are empty.
\<close>

theorem uuid_diff_drops_parsed_entries_witness:
  "xml_get parsed_rule1 ''uuid'' = Some ''1'' \<and> xml_get parsed_rule5 ''uuid'' = Some ''5''
   \<and> xml_get parsed_rule1 ''name'' = Some ''r1'' \<and> xml_get parsed_rule5 ''name'' = Some ''r5''
   \<and> load_config_package parsed_external ex_settings ''key'' None None True False None
       = Inr parsed_package
   \<and> device_group_hierarchy_parent parsed_package ''A'' = Some ''shared''
   \<and> entries_of (devicegroup_objects parsed_package) ''shared'' ''SecurityPreRules'' = [parsed_rule1]
   \<and> entries_of (devicegroup_objects parsed_package) ''A'' ''SecurityPreRules'' = [parsed_rule5]
   \<and> (\<exists>m. devicegroup_exclusive_objects parsed_package ''A'' = Some m \<and>
          m ''SecurityPreRules'' = Some [])"
proof -
  have e: "entries_of (devicegroup_objects parsed_package) ''shared'' ''SecurityPreRules'' = [parsed_rule1]"
    "entries_of (devicegroup_objects parsed_package) ''A'' ''SecurityPreRules'' = [parsed_rule5]"
    by (simp_all add: entries_of_def lookup_entries_def parsed_package_def)
  have par: "device_group_hierarchy_parent parsed_package ''A'' = Some ''shared''"
    by (simp add: parsed_package_def)
  have mem: "''A'' \<in> set (get_device_groups (pan_config parsed_package) @ [''shared''])"
    "''SecurityPreRules'' \<in> set (SUPPORTED_POLICY_TYPES (pan_config parsed_package))"
    by (simp_all add: parsed_package_def parsed_config_def)
  have none: "\<forall>e \<in> set (entries_of (devicegroup_objects parsed_package) ''A'' ''SecurityPreRules'') \<union>
                set (entries_of (devicegroup_objects parsed_package) ''shared'' ''SecurityPreRules'').
           xml_get e ''@uuid'' = None"
    unfolding e by (simp add: xml_get_def parsed_rule1_def parsed_rule5_def)
  have at: "xml_get parsed_rule1 ''uuid'' = Some ''1''" "xml_get parsed_rule5 ''uuid'' = Some ''5''"
    "xml_get parsed_rule1 ''name'' = Some ''r1''" "xml_get parsed_rule5 ''name'' = Some ''r5''"
    by (simp_all add: xml_get_def parsed_rule1_def parsed_rule5_def)
  from uuid_diff_drops_parsed_entries [OF parsed_load mem par none]
  have "\<exists>m. devicegroup_exclusive_objects parsed_package ''A'' = Some m \<and>
          m ''SecurityPreRules'' = Some []"
    unfolding e by simp
  with at parsed_load par e show ?thesis by simp
qed



end
